theory Spec2Isabelle
  imports Main "HOL-Library.Word"
begin

section \<open>JavaScript strings\<close>

text \<open>
  A JavaScript string is a sequence of UTF-16 code units. \<^verbatim>\<open>length\<close>, \<^verbatim>\<open>indexOf\<close>,
  \<^verbatim>\<open>substring\<close> and property keys work on code units; the string iterator used by
  \<^verbatim>\<open>for (const char of text)\<close> yields one string per Unicode code point: a high
  surrogate directly followed by a low surrogate is one element of two code units, every
  other code unit (a lone surrogate too) is an element of its own.
\<close>

type_synonym code_unit = "16 word"
type_synonym jsstring = "code_unit list"

definition is_high_surrogate :: "code_unit \<Rightarrow> bool" where
  "is_high_surrogate u \<longleftrightarrow> 0xD800 \<le> u \<and> u \<le> 0xDBFF"

definition is_low_surrogate :: "code_unit \<Rightarrow> bool" where
  "is_low_surrogate u \<longleftrightarrow> 0xDC00 \<le> u \<and> u \<le> 0xDFFF"

text \<open>The elements produced by the string iterator, in order.\<close>

fun code_points :: "jsstring \<Rightarrow> jsstring list" where
  "code_points [] = []"
| "code_points [u] = [[u]]"
| "code_points (u # v # rest) =
     (if is_high_surrogate u \<and> is_low_surrogate v
      then [u, v] # code_points rest
      else [u] # code_points (v # rest))"

text \<open>\<^verbatim>\<open>text.indexOf(pat)\<close>: the least code-unit index at which \<open>pat\<close> occurs, \<open>None\<close> for -1.\<close>

fun indexOf :: "jsstring \<Rightarrow> jsstring \<Rightarrow> nat option" where
  "indexOf [] pat = (if pat = [] then Some 0 else None)"
| "indexOf (x # xs) pat =
     (if take (length pat) (x # xs) = pat then Some 0
      else map_option Suc (indexOf xs pat))"

text \<open>\<^verbatim>\<open>text.substring(a, b)\<close> for \<open>a \<le> b\<close> and \<^verbatim>\<open>text.substring(a)\<close>; indices beyond the end are
  clamped to the length, which \<open>take\<close> and \<open>drop\<close> do as well.\<close>

definition substring :: "jsstring \<Rightarrow> nat \<Rightarrow> nat \<Rightarrow> jsstring" where
  "substring s a b = take (b - a) (drop a s)"

definition substring_from :: "jsstring \<Rightarrow> nat \<Rightarrow> jsstring" where
  "substring_from s a = drop a s"

section \<open>The rendered tree\<close>

text \<open>
  A graphic is the opaque element the icon service hands out. A node carries its identity;
  \<^verbatim>\<open>document.createTextNode\<close> and \<^verbatim>\<open>cloneNode\<close> make nodes with fresh identities, taken from
  a counter. The inside of an inserted graphic is not modelled.
\<close>

type_synonym node_id = nat

datatype graphic = Graphic string

datatype node =
    TextNode node_id jsstring
  | ElementNode node_id "node list"
  | IconNode node_id graphic

datatype js_error = JsError string

section \<open>Settings, the icon service and the emoji library\<close>

record settings =
  customEmojiMappings :: "jsstring \<rightharpoonup> jsstring"
  enableDefaultIconSearch :: bool

definition DEFAULT_SETTINGS :: settings where
  "DEFAULT_SETTINGS = \<lparr>customEmojiMappings = Map.empty, enableDefaultIconSearch = True\<rparr>"

text \<open>
  The object returned by \<^verbatim>\<open>getApi()\<close>. Each operation either returns or throws
  (\<open>Inl\<close>); \<^verbatim>\<open>getSVGIcon\<close> resolves to an element or to null.
\<close>

record iconsc_api =
  hasIcon :: "jsstring \<Rightarrow> js_error + bool"
  getSVGIcon :: "jsstring \<Rightarrow> js_error + graphic option"
  isEmoji :: "jsstring \<Rightarrow> js_error + bool"

text \<open>
  The node-emoji module is used through \<^verbatim>\<open>find\<close> only, which returns an object with a
  \<^verbatim>\<open>key\<close> or undefined; the module is represented by that function.
\<close>

type_synonym emoji_module = "jsstring \<Rightarrow> js_error + jsstring option"

text \<open>What the traversal reads and never writes.\<close>

record plugin_env =
  plugin_settings :: settings
  isMobileDevice :: bool
  iconSC :: iconsc_api
  import_node_emoji :: "js_error + emoji_module"

text \<open>
  What the traversal changes besides the tree: the cached module \<^verbatim>\<open>this.emojiModule\<close>,
  the console, the identity counter, and the record of calls made to the icon service
  and the emoji library.
\<close>

datatype call =
    CallHasIcon jsstring
  | CallGetSVGIcon jsstring
  | CallIsEmoji jsstring
  | CallImport
  | CallFind jsstring

datatype log_entry =
    Failed_to_import_node_emoji js_error
  | Error_using_node_emoji js_error

record runtime =
  emojiModule :: "emoji_module option"
  console :: "log_entry list"
  next_id :: nat
  calls :: "call list"

definition called :: "call \<Rightarrow> runtime \<Rightarrow> runtime" where
  "called c rt = rt\<lparr>calls := calls rt @ [c]\<rparr>"

section \<open>Splicing a graphic into a text leaf\<close>

text \<open>\<^verbatim>\<open>node.textContent || ""\<close> of a text node.\<close>

fun textContent :: "node \<Rightarrow> jsstring" where
  "textContent (TextNode i t) = t"
| "textContent (ElementNode i cs) = concat (map textContent cs)"
| "textContent (IconNode i g) = []"

text \<open>
  \<^verbatim>\<open>replaceTextWithIcon(textNode, emoji, svg)\<close>. The first argument says whether
  \<^verbatim>\<open>textNode.parentNode\<close> is set. \<open>Some ns\<close> is \<^verbatim>\<open>true\<close>: the leaf has been removed from its
  parent and \<open>ns\<close> stands at its place; \<open>None\<close> is \<^verbatim>\<open>false\<close>: the tree is as it was. The two
  text nodes are created before the parent is looked at.
\<close>

definition replaceTextWithIcon ::
  "bool \<Rightarrow> node \<Rightarrow> jsstring \<Rightarrow> graphic \<Rightarrow> runtime \<Rightarrow> node list option \<times> runtime" where
  "replaceTextWithIcon has_parent textNode emoji svg rt =
     (let text = textContent textNode in
      case indexOf text emoji of
        None \<Rightarrow> (None, rt)
      | Some index \<Rightarrow>
          (let before = TextNode (next_id rt) (substring text 0 index);
               after = TextNode (next_id rt + 1) (substring_from text (index + length emoji))
           in if has_parent
              then (Some [before, IconNode (next_id rt + 2) svg, after],
                    rt\<lparr>next_id := next_id rt + 3\<rparr>)
              else (None, rt\<lparr>next_id := next_id rt + 2\<rparr>)))"

section \<open>Scanning one text leaf\<close>

text \<open>
  The result of one run of the body of \<^verbatim>\<open>for (const char of text)\<close>, and of the loop:
  \<open>Continue\<close> goes on with the next character (at the end of the text: the loop ran out),
  \<open>Break ns\<close> left the loop after a replacement by \<open>ns\<close>, \<open>Throw\<close> is an exception that
  leaves \<^verbatim>\<open>processTextNodes\<close>.
\<close>

datatype step =
    Continue runtime
  | Break "node list" runtime
  | Throw js_error runtime

text \<open>
  The shared tail of both paths: \<^verbatim>\<open>if (iconSC.hasIcon(id)) { const svg = await
  iconSC.getSVGIcon(id); if (svg && await replaceTextWithIcon(node, char, svg)) break; }\<close>.
\<close>

definition substitute_icon ::
  "plugin_env \<Rightarrow> bool \<Rightarrow> node \<Rightarrow> jsstring \<Rightarrow> jsstring \<Rightarrow> runtime \<Rightarrow> step" where
  "substitute_icon env has_parent node char iconId rt =
     (let rt1 = called (CallHasIcon iconId) rt in
      case hasIcon (iconSC env) iconId of
        Inl e \<Rightarrow> Throw e rt1
      | Inr False \<Rightarrow> Continue rt1
      | Inr True \<Rightarrow>
          (let rt2 = called (CallGetSVGIcon iconId) rt1 in
           case getSVGIcon (iconSC env) iconId of
             Inl e \<Rightarrow> Throw e rt2
           | Inr None \<Rightarrow> Continue rt2
           | Inr (Some svg) \<Rightarrow>
               (case replaceTextWithIcon has_parent node char svg rt2 of
                  (Some ns, rt3) \<Rightarrow> Break ns rt3
                | (None, rt3) \<Rightarrow> Continue rt3)))"

text \<open>
  Lines 63 to 72: the custom mapping. A missing key and an empty icon identifier are
  both falsy. \<open>Continue\<close> here means that control reaches line 74.
\<close>

definition custom_mapping_path ::
  "plugin_env \<Rightarrow> bool \<Rightarrow> node \<Rightarrow> jsstring \<Rightarrow> runtime \<Rightarrow> step" where
  "custom_mapping_path env has_parent node char rt =
     (case customEmojiMappings (plugin_settings env) char of
        None \<Rightarrow> Continue rt
      | Some customIconId \<Rightarrow>
          if customIconId = [] then Continue rt
          else substitute_icon env has_parent node char customIconId rt)"

definition luc_prefix :: jsstring where
  "luc_prefix = [0x6C, 0x75, 0x63, 0x5F]"

text \<open>
  Lines 82 to 101, the body of the outer \<^verbatim>\<open>try\<close>: the lazy import with its own handler
  (log, then \<^verbatim>\<open>continue\<close>), the lookup, the icon \<^verbatim>\<open>luc_<key>\<close>. \<open>Throw\<close> here is an exception
  that reaches the outer \<^verbatim>\<open>catch\<close>.
\<close>

definition heuristic_lookup ::
  "plugin_env \<Rightarrow> bool \<Rightarrow> node \<Rightarrow> jsstring \<Rightarrow> emoji_module \<Rightarrow> runtime \<Rightarrow> step" where
  "heuristic_lookup env has_parent node char module rt =
     (let rt1 = called (CallFind char) rt in
      case module char of
        Inl e \<Rightarrow> Throw e rt1
      | Inr None \<Rightarrow> Continue rt1
      | Inr (Some key) \<Rightarrow> substitute_icon env has_parent node char (luc_prefix @ key) rt1)"

definition heuristic_try_body ::
  "plugin_env \<Rightarrow> bool \<Rightarrow> node \<Rightarrow> jsstring \<Rightarrow> runtime \<Rightarrow> step" where
  "heuristic_try_body env has_parent node char rt =
     (case emojiModule rt of
        Some module \<Rightarrow> heuristic_lookup env has_parent node char module rt
      | None \<Rightarrow>
          (let rt1 = called CallImport rt in
           case import_node_emoji env of
             Inl importError \<Rightarrow>
               Continue (rt1\<lparr>console := console rt1 @ [Failed_to_import_node_emoji importError]\<rparr>)
           | Inr module \<Rightarrow>
               heuristic_lookup env has_parent node char module (rt1\<lparr>emojiModule := Some module\<rparr>)))"

text \<open>Lines 81 to 104: the outer \<^verbatim>\<open>try\<close> with its \<^verbatim>\<open>catch\<close>, which logs and falls out of the body.\<close>

definition heuristic_path ::
  "plugin_env \<Rightarrow> bool \<Rightarrow> node \<Rightarrow> jsstring \<Rightarrow> runtime \<Rightarrow> step" where
  "heuristic_path env has_parent node char rt =
     (case heuristic_try_body env has_parent node char rt of
        Throw error rt' \<Rightarrow> Continue (rt'\<lparr>console := console rt' @ [Error_using_node_emoji error]\<rparr>)
      | r \<Rightarrow> r)"

text \<open>
  Lines 62 to 105, one run of the loop body. \<^verbatim>\<open>iconSC.isEmoji(char)\<close> is the right operand
  of \<^verbatim>\<open>&&\<close>, so it is called only when the flag is set, and it stands outside the \<^verbatim>\<open>try\<close>.
\<close>

definition scan_char ::
  "plugin_env \<Rightarrow> bool \<Rightarrow> node \<Rightarrow> jsstring \<Rightarrow> runtime \<Rightarrow> step" where
  "scan_char env has_parent node char rt =
     (case custom_mapping_path env has_parent node char rt of
        Break ns rt' \<Rightarrow> Break ns rt'
      | Throw e rt' \<Rightarrow> Throw e rt'
      | Continue rt' \<Rightarrow>
          if isMobileDevice env then Continue rt'
          else if enableDefaultIconSearch (plugin_settings env) then
            (let rt1 = called (CallIsEmoji char) rt' in
             case isEmoji (iconSC env) char of
               Inl e \<Rightarrow> Throw e rt1
             | Inr False \<Rightarrow> Continue rt1
             | Inr True \<Rightarrow> heuristic_path env has_parent node char rt1)
          else Continue rt')"

text \<open>The loop over the characters still to come.\<close>

fun scan_chars ::
  "plugin_env \<Rightarrow> bool \<Rightarrow> node \<Rightarrow> jsstring list \<Rightarrow> runtime \<Rightarrow> step" where
  "scan_chars env has_parent node [] rt = Continue rt"
| "scan_chars env has_parent node (char # chars) rt =
     (case scan_char env has_parent node char rt of
        Continue rt' \<Rightarrow> scan_chars env has_parent node chars rt'
      | Break ns rt' \<Rightarrow> Break ns rt'
      | Throw e rt' \<Rightarrow> Throw e rt')"

section \<open>The traversal\<close>

text \<open>
  \<^verbatim>\<open>processTextNodes(node)\<close>, run alone and to its end. The result is how the call
  completed, the nodes that stand at the place of \<open>node\<close> in its parent afterwards, and
  the new runtime state. The children of an element are taken from the snapshot
  \<^verbatim>\<open>Array.from(node.childNodes)\<close>, so nodes inserted by a replacement are not visited; after
  an exception the children not yet visited stay as they are.
\<close>

datatype completion = Completed | Threw js_error

fun processTextNodes ::
      "plugin_env \<Rightarrow> bool \<Rightarrow> node \<Rightarrow> runtime \<Rightarrow> completion \<times> node list \<times> runtime"
  and processChildren ::
      "plugin_env \<Rightarrow> node list \<Rightarrow> runtime \<Rightarrow> completion \<times> node list \<times> runtime" where
  "processTextNodes env has_parent (TextNode i t) rt =
     (case scan_chars env has_parent (TextNode i t) (code_points (textContent (TextNode i t))) rt of
        Continue rt' \<Rightarrow> (Completed, [TextNode i t], rt')
      | Break ns rt' \<Rightarrow> (Completed, ns, rt')
      | Throw e rt' \<Rightarrow> (Threw e, [TextNode i t], rt'))"
| "processTextNodes env has_parent (ElementNode i cs) rt =
     (case processChildren env cs rt of
        (r, cs', rt') \<Rightarrow> (r, [ElementNode i cs'], rt'))"
| "processTextNodes env has_parent (IconNode i g) rt = (Completed, [IconNode i g], rt)"
| "processChildren env [] rt = (Completed, [], rt)"
| "processChildren env (child # rest) rt =
     (case processTextNodes env True child rt of
        (Threw e, ns, rt') \<Rightarrow> (Threw e, ns @ rest, rt')
      | (Completed, ns, rt') \<Rightarrow>
          (case processChildren env rest rt' of
             (r, ms, rt'') \<Rightarrow> (r, ns @ ms, rt'')))"

section \<open>One render: overlapping traversals\<close>

text \<open>
  Lines 115 to 119. The post processor takes the elements \<^verbatim>\<open>p\<close>, \<^verbatim>\<open>li\<close> and \<^verbatim>\<open>div\<close> below the
  rendered element, in document order, and calls \<^verbatim>\<open>processTextNodes\<close> on each without
  waiting for it. Each call runs until its first \<^verbatim>\<open>await\<close>; the rest of it runs later, one
  piece from \<^verbatim>\<open>await\<close> to \<^verbatim>\<open>await\<close> at a time, in the order of the job queue. The calls share
  the tree and \<^verbatim>\<open>this.emojiModule\<close>. Every awaited promise is taken to be settled when it is
  awaited (the icon service and the import answer at once), so a call that awaits goes to
  the back of the queue; an asynchronous function that returns to a caller awaiting it
  hands over in the same way.
\<close>

fun node_ident :: "node \<Rightarrow> node_id" where
  "node_ident (TextNode i t) = i"
| "node_ident (ElementNode i cs) = i"
| "node_ident (IconNode i g) = i"

text \<open>The node with a given identity, as it is in the tree now.\<close>

fun find_node :: "node_id \<Rightarrow> node \<Rightarrow> node option"
  and find_among :: "node_id \<Rightarrow> node list \<Rightarrow> node option" where
  "find_node nid (TextNode i t) = (if i = nid then Some (TextNode i t) else None)"
| "find_node nid (IconNode i g) = (if i = nid then Some (IconNode i g) else None)"
| "find_node nid (ElementNode i cs) =
     (if i = nid then Some (ElementNode i cs) else find_among nid cs)"
| "find_among nid [] = None"
| "find_among nid (c # cs) =
     (case find_node nid c of Some n \<Rightarrow> Some n | None \<Rightarrow> find_among nid cs)"

text \<open>\<^verbatim>\<open>node.parentNode\<close> is set: the node is a child of some element of the tree.\<close>

fun attached :: "node_id \<Rightarrow> node \<Rightarrow> bool" where
  "attached nid (ElementNode i cs) =
     list_ex (\<lambda>c. node_ident c = nid \<or> attached nid c) cs"
| "attached nid (TextNode i t) = False"
| "attached nid (IconNode i g) = False"

text \<open>
  The three \<^verbatim>\<open>insertBefore\<close> and the \<^verbatim>\<open>removeChild\<close> of lines 48 to 51, on the tree: the
  child with the given identity gives way to the new nodes.
\<close>

fun splice :: "node_id \<Rightarrow> node list \<Rightarrow> node \<Rightarrow> node" where
  "splice nid ns (ElementNode i cs) =
     ElementNode i (concat (map (\<lambda>c. if node_ident c = nid then ns else [splice nid ns c]) cs))"
| "splice nid ns (TextNode i t) = TextNode i t"
| "splice nid ns (IconNode i g) = IconNode i g"

text \<open>
  \<^verbatim>\<open>element.querySelectorAll("p, li, div")\<close>: the element names are kept beside the tree.
\<close>

fun selected_in :: "(node_id \<Rightarrow> string) \<Rightarrow> node \<Rightarrow> node_id list" where
  "selected_in tagName (ElementNode i cs) =
     (if tagName i \<in> {''p'', ''li'', ''div''} then [i] else []) @
     concat (map (selected_in tagName) cs)"
| "selected_in tagName (TextNode i t) = []"
| "selected_in tagName (IconNode i g) = []"

fun querySelectorAll :: "(node_id \<Rightarrow> string) \<Rightarrow> node \<Rightarrow> node_id list" where
  "querySelectorAll tagName (ElementNode i cs) = concat (map (selected_in tagName) cs)"
| "querySelectorAll tagName (TextNode i t) = []"
| "querySelectorAll tagName (IconNode i g) = []"

text \<open>What the calls of one render share.\<close>

record shared =
  tree :: node
  runtime_now :: runtime
  rejections :: "js_error list"

text \<open>
  Where a suspended scan of a leaf goes on: at the head of the loop, or behind one of
  the five \<^verbatim>\<open>await\<close> of the loop body, with the value the awaited promise settled to.
\<close>

datatype resume_at =
    AtLoopHead
  | AfterCustomSVG "js_error + graphic option"
  | AfterCustomReplace bool
  | AfterImport "js_error + emoji_module"
  | AfterHeuristicSVG "js_error + graphic option"
  | AfterHeuristicReplace bool

text \<open>
  How one run of the loop body ends or pauses: it goes on with the next character, it
  leaves the loop by \<^verbatim>\<open>break\<close>, it pauses at an \<^verbatim>\<open>await\<close>, or it throws.
\<close>

datatype body_progress =
    NextChar shared
  | BodyBreaks shared
  | BodyAwaits resume_at shared
  | BodyThrows js_error shared

definition note_call :: "call \<Rightarrow> shared \<Rightarrow> shared" where
  "note_call c w = w\<lparr>runtime_now := called c (runtime_now w)\<rparr>"

definition log_error :: "log_entry \<Rightarrow> shared \<Rightarrow> shared" where
  "log_error l w = w\<lparr>runtime_now := (runtime_now w)\<lparr>console := console (runtime_now w) @ [l]\<rparr>\<rparr>"

text \<open>
  The call \<^verbatim>\<open>replaceTextWithIcon(node, char, svg)\<close> on the shared tree; it has no \<^verbatim>\<open>await\<close>
  inside, so it is done when it is called.
\<close>

definition replace_in_tree ::
  "node_id \<Rightarrow> jsstring \<Rightarrow> jsstring \<Rightarrow> graphic \<Rightarrow> shared \<Rightarrow> bool \<times> shared" where
  "replace_in_tree nid text char svg w =
     (case replaceTextWithIcon (attached nid (tree w)) (TextNode nid text) char svg (runtime_now w) of
        (Some ns, rt') \<Rightarrow> (True, w\<lparr>tree := splice nid ns (tree w), runtime_now := rt'\<rparr>)
      | (None, rt') \<Rightarrow> (False, w\<lparr>runtime_now := rt'\<rparr>))"

text \<open>Lines 92 to 96, inside the \<^verbatim>\<open>try\<close>: from the call of \<^verbatim>\<open>find\<close> to the second \<^verbatim>\<open>await\<close>.\<close>

definition body_from_line_92 :: "plugin_env \<Rightarrow> jsstring \<Rightarrow> emoji_module \<Rightarrow> shared \<Rightarrow> body_progress" where
  "body_from_line_92 env char module w =
     (let w1 = note_call (CallFind char) w in
      case module char of
        Inl e \<Rightarrow> NextChar (log_error (Error_using_node_emoji e) w1)
      | Inr None \<Rightarrow> NextChar w1
      | Inr (Some key) \<Rightarrow>
          (let lucideId = luc_prefix @ key; w2 = note_call (CallHasIcon lucideId) w1 in
           case hasIcon (iconSC env) lucideId of
             Inl e \<Rightarrow> NextChar (log_error (Error_using_node_emoji e) w2)
           | Inr False \<Rightarrow> NextChar w2
           | Inr True \<Rightarrow>
               BodyAwaits (AfterHeuristicSVG (getSVGIcon (iconSC env) lucideId))
                 (note_call (CallGetSVGIcon lucideId) w2)))"

text \<open>Lines 74 to 85: from the test for a mobile device to the import.\<close>

definition body_from_line_74 :: "plugin_env \<Rightarrow> jsstring \<Rightarrow> shared \<Rightarrow> body_progress" where
  "body_from_line_74 env char w =
     (if isMobileDevice env then NextChar w
      else if enableDefaultIconSearch (plugin_settings env) then
        (let w1 = note_call (CallIsEmoji char) w in
         case isEmoji (iconSC env) char of
           Inl e \<Rightarrow> BodyThrows e w1
         | Inr False \<Rightarrow> NextChar w1
         | Inr True \<Rightarrow>
             (case emojiModule (runtime_now w1) of
                None \<Rightarrow> BodyAwaits (AfterImport (import_node_emoji env)) (note_call CallImport w1)
              | Some module \<Rightarrow> body_from_line_92 env char module w1))
      else NextChar w)"

text \<open>Lines 63 to 67: from the head of the body to the first \<^verbatim>\<open>await\<close>.\<close>

definition body_from_head :: "plugin_env \<Rightarrow> jsstring \<Rightarrow> shared \<Rightarrow> body_progress" where
  "body_from_head env char w =
     (case customEmojiMappings (plugin_settings env) char of
        None \<Rightarrow> body_from_line_74 env char w
      | Some customIconId \<Rightarrow>
          if customIconId = [] then body_from_line_74 env char w
          else
            (let w1 = note_call (CallHasIcon customIconId) w in
             case hasIcon (iconSC env) customIconId of
               Inl e \<Rightarrow> BodyThrows e w1
             | Inr False \<Rightarrow> body_from_line_74 env char w1
             | Inr True \<Rightarrow>
                 BodyAwaits (AfterCustomSVG (getSVGIcon (iconSC env) customIconId))
                   (note_call (CallGetSVGIcon customIconId) w1)))"

text \<open>
  The body of the loop for one character, gone on with at the given place up to the next
  \<^verbatim>\<open>await\<close>. A promise that was rejected throws where it is awaited: in the custom mapping
  path the exception leaves the function, behind the import it is logged by the inner
  handler, in the rest of the \<^verbatim>\<open>try\<close> by the outer one.
\<close>

definition body_resume ::
  "plugin_env \<Rightarrow> node_id \<Rightarrow> jsstring \<Rightarrow> jsstring \<Rightarrow> resume_at \<Rightarrow> shared \<Rightarrow> body_progress" where
  "body_resume env nid text char at w =
     (case at of
        AtLoopHead \<Rightarrow> body_from_head env char w
      | AfterCustomSVG settled \<Rightarrow>
          (case settled of
             Inl e \<Rightarrow> BodyThrows e w
           | Inr None \<Rightarrow> body_from_line_74 env char w
           | Inr (Some svg) \<Rightarrow>
               (case replace_in_tree nid text char svg w of
                  (replaced, w') \<Rightarrow> BodyAwaits (AfterCustomReplace replaced) w'))
      | AfterCustomReplace replaced \<Rightarrow>
          if replaced then BodyBreaks w else body_from_line_74 env char w
      | AfterImport settled \<Rightarrow>
          (case settled of
             Inl importError \<Rightarrow> NextChar (log_error (Failed_to_import_node_emoji importError) w)
           | Inr module \<Rightarrow>
               body_from_line_92 env char module
                 (w\<lparr>runtime_now := (runtime_now w)\<lparr>emojiModule := Some module\<rparr>\<rparr>))
      | AfterHeuristicSVG settled \<Rightarrow>
          (case settled of
             Inl e \<Rightarrow> NextChar (log_error (Error_using_node_emoji e) w)
           | Inr None \<Rightarrow> NextChar w
           | Inr (Some svg) \<Rightarrow>
               (case replace_in_tree nid text char svg w of
                  (replaced, w') \<Rightarrow> BodyAwaits (AfterHeuristicReplace replaced) w'))
      | AfterHeuristicReplace replaced \<Rightarrow>
          if replaced then BodyBreaks w else NextChar w)"

text \<open>
  A call in progress is a stack of frames, the innermost first: the scan of a text leaf
  with the characters left (the first one is in work), or the loop over the snapshot of an
  element's children with the children left.
\<close>

datatype frame =
    Leaf node_id jsstring "jsstring list" resume_at
  | Children "node list"

datatype leaf_progress =
    LeafAwaits frame shared
  | LeafReturns shared
  | LeafThrows js_error shared

text \<open>The loop over the characters of a leaf, up to the next \<^verbatim>\<open>await\<close>.\<close>

fun scan_on ::
  "plugin_env \<Rightarrow> node_id \<Rightarrow> jsstring \<Rightarrow> jsstring list \<Rightarrow> resume_at \<Rightarrow> shared \<Rightarrow> leaf_progress" where
  "scan_on env nid text [] at w = LeafReturns w"
| "scan_on env nid text (char # chars) at w =
     (case body_resume env nid text char at w of
        NextChar w' \<Rightarrow> scan_on env nid text chars AtLoopHead w'
      | BodyBreaks w' \<Rightarrow> LeafReturns w'
      | BodyAwaits at' w' \<Rightarrow> LeafAwaits (Leaf nid text (char # chars) at') w'
      | BodyThrows e w' \<Rightarrow> LeafThrows e w')"

text \<open>
  \<^verbatim>\<open>processTextNodes(node)\<close> is entered: for a text node the text is read, for an element
  the children it has now are copied.
\<close>

definition enter :: "node \<Rightarrow> shared \<Rightarrow> frame" where
  "enter n w =
     (case n of
        TextNode i t \<Rightarrow> Leaf i t (code_points t) AtLoopHead
      | ElementNode i cs \<Rightarrow>
          (case find_node i (tree w) of
             Some (ElementNode j now) \<Rightarrow> Children now
           | _ \<Rightarrow> Children cs)
      | IconNode i g \<Rightarrow> Children [])"

text \<open>
  One call runs from where it stands to its next \<^verbatim>\<open>await\<close>, to its end or to an exception.
  A function that returns while a caller awaits it makes the caller wait for its turn.
  The number bounds the calls entered on the way down; \<open>None\<close> says it was too small.
\<close>

datatype progress =
    Awaits "frame list" shared
  | Returns shared
  | Throws js_error shared

definition hand_over :: "frame list \<Rightarrow> shared \<Rightarrow> progress" where
  "hand_over callers w = (if callers = [] then Returns w else Awaits callers w)"

fun run_call :: "nat \<Rightarrow> plugin_env \<Rightarrow> frame list \<Rightarrow> shared \<Rightarrow> progress option" where
  "run_call depth env [] w = Some (Returns w)"
| "run_call depth env (Leaf nid text chars at # callers) w =
     (case scan_on env nid text chars at w of
        LeafAwaits f w' \<Rightarrow> Some (Awaits (f # callers) w')
      | LeafReturns w' \<Rightarrow> Some (hand_over callers w')
      | LeafThrows e w' \<Rightarrow> Some (Throws e w'))"
| "run_call depth env (Children [] # callers) w = Some (hand_over callers w)"
| "run_call 0 env (Children (child # rest) # callers) w = None"
| "run_call (Suc depth) env (Children (child # rest) # callers) w =
     run_call depth env (enter child w # Children rest # callers) w"

text \<open>
  The job queue: the first call in line runs one piece; if it awaits again it goes to
  the back. An exception ends the call; nothing handles it. The number bounds the pieces.
\<close>

fun drain :: "nat \<Rightarrow> nat \<Rightarrow> plugin_env \<Rightarrow> frame list list \<Rightarrow> shared \<Rightarrow> shared option" where
  "drain turns depth env [] w = Some w"
| "drain 0 depth env (job # queue) w = None"
| "drain (Suc turns) depth env (job # queue) w =
     (case run_call depth env job w of
        None \<Rightarrow> None
      | Some (Awaits job' w') \<Rightarrow> drain turns depth env (queue @ [job']) w'
      | Some (Returns w') \<Rightarrow> drain turns depth env queue w'
      | Some (Throws e w') \<Rightarrow> drain turns depth env queue (w'\<lparr>rejections := rejections w' @ [e]\<rparr>))"

text \<open>
  \<^verbatim>\<open>forEach(async (el) => { await processTextNodes(el); })\<close>: each call is started in turn
  and runs to its first \<^verbatim>\<open>await\<close>; those that await are queued in that order.
\<close>

fun start_calls ::
  "nat \<Rightarrow> plugin_env \<Rightarrow> node_id list \<Rightarrow> frame list list \<Rightarrow> shared \<Rightarrow> (frame list list \<times> shared) option" where
  "start_calls depth env [] queue w = Some (queue, w)"
| "start_calls depth env (el # els) queue w =
     (case find_node el (tree w) of
        None \<Rightarrow> start_calls depth env els queue w
      | Some n \<Rightarrow>
          (case run_call depth env [enter n w] w of
             None \<Rightarrow> None
           | Some (Awaits job w') \<Rightarrow> start_calls depth env els (queue @ [job]) w'
           | Some (Returns w') \<Rightarrow> start_calls depth env els queue w'
           | Some (Throws e w') \<Rightarrow>
               start_calls depth env els queue (w'\<lparr>rejections := rejections w' @ [e]\<rparr>)))"

text \<open>The post processor on a rendered element, and the jobs it leaves, run to the end.\<close>

definition postProcessor ::
  "nat \<Rightarrow> nat \<Rightarrow> plugin_env \<Rightarrow> (node_id \<Rightarrow> string) \<Rightarrow> shared \<Rightarrow> shared option" where
  "postProcessor turns depth env tagName w =
     (case start_calls depth env (querySelectorAll tagName (tree w)) [] w of
        None \<Rightarrow> None
      | Some (queue, w') \<Rightarrow> drain turns depth env queue w')"

section \<open>The settings tab: adding a mapping\<close>

text \<open>
  What the click handler of the "Add mapping" button reads and writes: the plugin's
  settings, the sequence of \<^verbatim>\<open>saveData\<close> calls (each with the settings written), the
  notices shown, and the two input fields.
\<close>

record settings_tab =
  tab_settings :: settings
  saved_data :: "settings list"
  notices :: "string list"
  emojiInput :: jsstring
  iconInput :: jsstring

definition show_notice :: "string \<Rightarrow> settings_tab \<Rightarrow> settings_tab" where
  "show_notice msg tab = tab\<lparr>notices := notices tab @ [msg]\<rparr>"

text \<open>
  Lines 384 to 395: the loop over the characters of the input. \<open>Inr False\<close> is the
  \<^verbatim>\<open>return\<close> after a second emoji, \<open>Inr True\<close> the end of the loop. (\<^verbatim>\<open>remainingText\<close> is
  written and never read.)
\<close>

fun one_emoji_loop :: "iconsc_api \<Rightarrow> jsstring list \<Rightarrow> bool \<Rightarrow> js_error + bool" where
  "one_emoji_loop api [] foundEmoji = Inr True"
| "one_emoji_loop api (char # chars) foundEmoji =
     (case isEmoji api char of
        Inl e \<Rightarrow> Inl e
      | Inr False \<Rightarrow> one_emoji_loop api chars foundEmoji
      | Inr True \<Rightarrow> if foundEmoji then Inr False else one_emoji_loop api chars True)"

text \<open>
  Lines 398 to 403: the mapping is stored, the settings are saved, both fields are
  cleared. (The list of mappings is drawn again, which is not modelled.)
\<close>

definition store_mapping :: "settings_tab \<Rightarrow> settings_tab" where
  "store_mapping tab =
     (let new_settings =
            (tab_settings tab)\<lparr>customEmojiMappings :=
               (customEmojiMappings (tab_settings tab))(emojiInput tab \<mapsto> iconInput tab)\<rparr>
      in tab\<lparr>tab_settings := new_settings,
             saved_data := saved_data tab @ [new_settings],
             emojiInput := [],
             iconInput := []\<rparr>)"

text \<open>Lines 366 to 407; the first argument is what \<^verbatim>\<open>getApi()\<close> returns at the click.\<close>

definition addMapping_onClick :: "iconsc_api option \<Rightarrow> settings_tab \<Rightarrow> completion \<times> settings_tab" where
  "addMapping_onClick getApi tab =
     (let emoji = emojiInput tab; iconId = iconInput tab in
      if emoji = [] \<or> iconId = [] then
        (Completed, show_notice ''Both emoji and icon shortcode are required'' tab)
      else
        case getApi of
          None \<Rightarrow> (Completed, show_notice ''Please enter a valid emoji character'' tab)
        | Some api \<Rightarrow>
            (case isEmoji api emoji of
               Inl e \<Rightarrow> (Threw e, tab)
             | Inr False \<Rightarrow> (Completed, show_notice ''Please enter a valid emoji character'' tab)
             | Inr True \<Rightarrow>
                 (case one_emoji_loop api (code_points emoji) False of
                    Inl e \<Rightarrow> (Threw e, tab)
                  | Inr False \<Rightarrow> (Completed, show_notice ''Please enter only one emoji'' tab)
                  | Inr True \<Rightarrow> (Completed, store_mapping tab))))"

section \<open>Loading the plugin\<close>

text \<open>
  What \<^verbatim>\<open>onload\<close> leaves at the host: the modals opened, the markdown post processors
  registered (the one of this plugin closes over the icon service it found), and the
  settings tabs added.
\<close>

datatype modal = MissingDependencyModal

datatype processor = EmojiPostProcessor iconsc_api

record host =
  opened_modals :: "modal list"
  markdown_post_processors :: "processor list"
  setting_tabs :: nat

definition fresh_host :: host where
  "fresh_host = \<lparr>opened_modals = [], markdown_post_processors = [], setting_tabs = 0\<rparr>"

text \<open>Lines 27 to 120: the callback given to \<^verbatim>\<open>onLayoutReady\<close>.\<close>

definition onLayoutReady_callback :: "iconsc_api option \<Rightarrow> host \<Rightarrow> host" where
  "onLayoutReady_callback getApi h =
     (case getApi of
        None \<Rightarrow> h\<lparr>opened_modals := opened_modals h @ [MissingDependencyModal]\<rparr>
      | Some api \<Rightarrow>
          h\<lparr>markdown_post_processors := markdown_post_processors h @ [EmojiPostProcessor api]\<rparr>)"

text \<open>\<^verbatim>\<open>onload\<close>, with the layout becoming ready once: the callback runs, the settings tab is added.\<close>

definition onload :: "iconsc_api option \<Rightarrow> host \<Rightarrow> host" where
  "onload getApi h =
     (let h1 = onLayoutReady_callback getApi h in h1\<lparr>setting_tabs := setting_tabs h1 + 1\<rparr>)"

text \<open>
  The host calls every registered post processor with each rendered element; these are
  the calls one render makes. \<^verbatim>\<open>processTextNodes\<close> is called from the post processor only.
\<close>

definition post_processor_calls :: "host \<Rightarrow> node \<Rightarrow> (processor \<times> node) list" where
  "post_processor_calls h element = map (\<lambda>p. (p, element)) (markdown_post_processors h)"

text \<open>\<^verbatim>\<open>MissingDependencyModal.onOpen\<close>: the elements created, as tag and text, in order.\<close>

definition MissingDependencyModal_onOpen :: "(string \<times> string) list" where
  \<open>MissingDependencyModal_onOpen =
     [(''h2'', ''Missing Dependency''),
      (''p'', ''The Emoji Replacer plugin requires the "Icon Shortcodes" plugin to function properly.''),
      (''p'', ''Please install and enable the "Icon Shortcodes" plugin to use Emoji Replacer.''),
      (''h3'', ''Installation Instructions:''),
      (''li'', ''Open Obsidian Settings''),
      (''li'', ''Go to "Community plugins" tab''),
      (''li'', ''Turn off "Restricted mode" if enabled''),
      (''li'', ''Click "Browse" to open the community plugins browser''),
      (''li'', ''Search for "Icon Shortcodes"''),
      (''li'', ''Click "Install" and then "Enable"''),
      (''button'', ''Close'')]\<close>

section \<open>Notions used in the statements\<close>

text \<open>A string that is the UTF-16 form of exactly one Unicode scalar value.\<close>

definition scalar_char :: "jsstring \<Rightarrow> bool" where
  "scalar_char c \<longleftrightarrow>
     (case c of
        [u] \<Rightarrow> \<not> is_high_surrogate u \<and> \<not> is_low_surrogate u
      | [h, l] \<Rightarrow> is_high_surrogate h \<and> is_low_surrogate l
      | _ \<Rightarrow> False)"

text \<open>A text with the first occurrence of a pattern taken out.\<close>

definition remove_first :: "jsstring \<Rightarrow> jsstring \<Rightarrow> jsstring" where
  "remove_first t p =
     (case indexOf t p of None \<Rightarrow> t | Some i \<Rightarrow> take i t @ drop (i + length p) t)"

text \<open>The calls only the heuristic path makes.\<close>

fun heuristic_call :: "call \<Rightarrow> bool" where
  "heuristic_call (CallIsEmoji c) = True"
| "heuristic_call CallImport = True"
| "heuristic_call (CallFind c) = True"
| "heuristic_call (CallHasIcon i) = False"
| "heuristic_call (CallGetSVGIcon i) = False"

text \<open>The emoji library the heuristic path works with: the cached module, else the import.\<close>

definition active_module :: "plugin_env \<Rightarrow> runtime \<Rightarrow> emoji_module option" where
  "active_module env rt =
     (case emojiModule rt of
        Some module \<Rightarrow> Some module
      | None \<Rightarrow> (case import_node_emoji env of Inl e \<Rightarrow> None | Inr module \<Rightarrow> Some module))"

text \<open>
  The heuristic path resolves a character to a graphic: it runs for the character, the
  library knows a name for it, and the icon service has the icon of that name.
\<close>

definition heuristic_resolves :: "plugin_env \<Rightarrow> runtime \<Rightarrow> jsstring \<Rightarrow> bool" where
  "heuristic_resolves env rt c \<longleftrightarrow>
     \<not> isMobileDevice env \<and> enableDefaultIconSearch (plugin_settings env) \<and>
     isEmoji (iconSC env) c = Inr True \<and>
     (case active_module env rt of
        None \<Rightarrow> False
      | Some module \<Rightarrow>
          (case module c of
             Inr (Some key) \<Rightarrow>
               hasIcon (iconSC env) (luc_prefix @ key) = Inr True \<and>
               (case getSVGIcon (iconSC env) (luc_prefix @ key) of
                  Inr (Some svg) \<Rightarrow> True
                | _ \<Rightarrow> False)
           | _ \<Rightarrow> False))"

text \<open>The number of characters of an input that the icon service takes for an emoji.\<close>

definition emoji_chars :: "iconsc_api \<Rightarrow> jsstring \<Rightarrow> nat" where
  "emoji_chars api s = length (filter (\<lambda>c. isEmoji api c = Inr True) (code_points s))"

text \<open>
  A character the scan passes over: it has no custom mapping, and the heuristic path
  does not run for it or the icon service does not take it for an emoji.
\<close>

definition inert :: "plugin_env \<Rightarrow> jsstring \<Rightarrow> bool" where
  "inert env c \<longleftrightarrow>
     customEmojiMappings (plugin_settings env) c = None \<and>
     (isMobileDevice env \<or> \<not> enableDefaultIconSearch (plugin_settings env) \<or>
      isEmoji (iconSC env) c = Inr False)"

text \<open>The runtime state a step ends in.\<close>

fun runtime_of :: "step \<Rightarrow> runtime" where
  "runtime_of (Continue rt) = rt"
| "runtime_of (Break ns rt) = rt"
| "runtime_of (Throw e rt) = rt"

text \<open>
  Between two runtime states nothing of the heuristic path has happened: no call of
  \<^verbatim>\<open>isEmoji\<close>, no import, no \<^verbatim>\<open>find\<close>, the cached module and the console are the same.
\<close>

definition heuristic_untouched :: "runtime \<Rightarrow> runtime \<Rightarrow> bool" where
  "heuristic_untouched rt rt' \<longleftrightarrow>
     filter heuristic_call (calls rt') = filter heuristic_call (calls rt) \<and>
     emojiModule rt' = emojiModule rt \<and> console rt' = console rt"

text \<open>
  The calls that no handler surrounds return for a character: those the custom mapping
  path makes for it, and \<^verbatim>\<open>isEmoji\<close> where the heuristic path can run.
\<close>

definition unguarded_calls_return :: "plugin_env \<Rightarrow> jsstring \<Rightarrow> bool" where
  "unguarded_calls_return env c \<longleftrightarrow>
     (case customEmojiMappings (plugin_settings env) c of
        None \<Rightarrow> True
      | Some I \<Rightarrow>
          I = [] \<or>
          (case hasIcon (iconSC env) I of
             Inl e \<Rightarrow> False
           | Inr False \<Rightarrow> True
           | Inr True \<Rightarrow> \<not> isl (getSVGIcon (iconSC env) I))) \<and>
     (isMobileDevice env \<or> \<not> enableDefaultIconSearch (plugin_settings env) \<or>
      \<not> isl (isEmoji (iconSC env) c))"

text \<open>The characters of all text leaves of a tree, in the order of the traversal.\<close>

fun scanned_chars :: "node \<Rightarrow> jsstring list" where
  "scanned_chars (TextNode i t) = code_points t"
| "scanned_chars (ElementNode i cs) = concat (map scanned_chars cs)"
| "scanned_chars (IconNode i g) = []"

text \<open>
  What one traversal may leave at the place of a node: a text leaf is kept, or it is
  split once into the text before the first occurrence of one of its characters, a
  graphic, and the text after that occurrence as it was; an element is kept with its
  children treated in this way, in their order; a graphic is kept.
\<close>

inductive spliced :: "node \<Rightarrow> node list \<Rightarrow> bool"
  and spliced_list :: "node list \<Rightarrow> node list \<Rightarrow> bool" where
  leaf_kept: "spliced (TextNode i t) [TextNode i t]"
| leaf_split: "c \<in> set (code_points t) \<Longrightarrow> indexOf t c = Some idx \<Longrightarrow>
     spliced (TextNode i t)
       [TextNode a (take idx t), IconNode b svg, TextNode d (drop (idx + length c) t)]"
| element_inside: "spliced_list cs cs' \<Longrightarrow> spliced (ElementNode i cs) [ElementNode i cs']"
| graphic_kept: "spliced (IconNode i g) [IconNode i g]"
| no_children: "spliced_list [] []"
| more_children: "spliced c ns \<Longrightarrow> spliced_list cs ms \<Longrightarrow> spliced_list (c # cs) (ns @ ms)"

code_pred spliced .

text \<open>The graphics and the text leaves of a tree, counted.\<close>

fun icons :: "node \<Rightarrow> nat" where
  "icons (TextNode i t) = 0"
| "icons (ElementNode i cs) = sum_list (map icons cs)"
| "icons (IconNode i g) = 1"

fun text_leaves :: "node \<Rightarrow> nat" where
  "text_leaves (TextNode i t) = 1"
| "text_leaves (ElementNode i cs) = sum_list (map text_leaves cs)"
| "text_leaves (IconNode i g) = 0"

section \<open>Example data\<close>

text \<open>String literals of ASCII characters, and the emoji of the examples.\<close>

definition ascii :: "string \<Rightarrow> jsstring" where
  "ascii s = map of_char s"

definition calendar :: jsstring where
  "calendar = [0xD83D, 0xDCC5]"

definition grinning :: jsstring where
  "grinning = [0xD83D, 0xDE00]"

definition star :: jsstring where
  "star = [0x2B50]"

definition flag_us :: jsstring where
  "flag_us = [0xD83C, 0xDDFA, 0xD83C, 0xDDF8]"

definition demo_api :: iconsc_api where
  "demo_api =
     \<lparr>hasIcon = (\<lambda>i. Inr (i \<in> {ascii ''luc_calendar'', ascii ''luc_smile'', ascii ''luc_star'', ascii ''luc_flag''})),
      getSVGIcon = (\<lambda>i.
         if i = ascii ''luc_calendar'' then Inr (Some (Graphic ''luc_calendar''))
         else if i = ascii ''luc_smile'' then Inr (Some (Graphic ''luc_smile''))
         else if i = ascii ''luc_star'' then Inr (Some (Graphic ''luc_star''))
         else if i = ascii ''luc_flag'' then Inr (Some (Graphic ''luc_flag''))
         else Inr None),
      isEmoji = (\<lambda>c. Inr (c \<in> {calendar, grinning, star, flag_us}))\<rparr>"

definition demo_module :: emoji_module where
  "demo_module c = (if c = grinning then Inr (Some (ascii ''smile'')) else Inr None)"

definition demo_runtime :: runtime where
  "demo_runtime = \<lparr>emojiModule = None, console = [], next_id = 100, calls = []\<rparr>"

text \<open>The first scenario of the specification: one mapping, the flag set, on a desktop.\<close>

definition calendar_env :: plugin_env where
  "calendar_env =
     \<lparr>plugin_settings =
        \<lparr>customEmojiMappings = [calendar \<mapsto> ascii ''luc_calendar''], enableDefaultIconSearch = True\<rparr>,
      isMobileDevice = False,
      iconSC = demo_api,
      import_node_emoji = Inr demo_module\<rparr>"

text \<open>Two mappings; the flag off; a mobile device.\<close>

definition two_mappings_env :: plugin_env where
  "two_mappings_env =
     \<lparr>plugin_settings =
        \<lparr>customEmojiMappings = [calendar \<mapsto> ascii ''luc_calendar'', star \<mapsto> ascii ''luc_star''],
         enableDefaultIconSearch = True\<rparr>,
      isMobileDevice = False,
      iconSC = demo_api,
      import_node_emoji = Inr demo_module\<rparr>"

definition flag_off_env :: plugin_env where
  "flag_off_env =
     calendar_env\<lparr>plugin_settings := (plugin_settings calendar_env)\<lparr>enableDefaultIconSearch := False\<rparr>\<rparr>"

definition mobile_env :: plugin_env where
  "mobile_env = calendar_env\<lparr>isMobileDevice := True\<rparr>"

text \<open>A mapping keyed on a flag, which is two code points, next to the calendar's.\<close>

definition flag_env :: plugin_env where
  "flag_env =
     calendar_env\<lparr>plugin_settings :=
        (plugin_settings calendar_env)\<lparr>customEmojiMappings :=
           (customEmojiMappings (plugin_settings calendar_env))(flag_us \<mapsto> ascii ''luc_flag'')\<rparr>\<rparr>"

text \<open>
  An icon service that confirms every icon; it has no graphic for \<^verbatim>\<open>luc_heart\<close>, to which
  the grinning face is mapped, and the heuristic path resolves the grinning face to
  \<^verbatim>\<open>luc_smile\<close>.
\<close>

definition unfetchable_env :: plugin_env where
  "unfetchable_env =
     \<lparr>plugin_settings =
        \<lparr>customEmojiMappings = [grinning \<mapsto> ascii ''luc_heart''], enableDefaultIconSearch = True\<rparr>,
      isMobileDevice = False,
      iconSC = demo_api\<lparr>hasIcon := (\<lambda>i. Inr True)\<rparr>,
      import_node_emoji = Inr demo_module\<rparr>"

text \<open>The grinning face mapped to the star icon, while the heuristic path resolves it to \<^verbatim>\<open>luc_smile\<close>.\<close>

definition priority_env :: plugin_env where
  "priority_env =
     \<lparr>plugin_settings =
        \<lparr>customEmojiMappings = [grinning \<mapsto> ascii ''luc_star''], enableDefaultIconSearch = True\<rparr>,
      isMobileDevice = False,
      iconSC = demo_api,
      import_node_emoji = Inr demo_module\<rparr>"

text \<open>An icon service whose \<^verbatim>\<open>getSVGIcon\<close> throws for the calendar's icon.\<close>

definition throwing_env :: plugin_env where
  "throwing_env =
     two_mappings_env\<lparr>iconSC :=
        demo_api\<lparr>getSVGIcon := (\<lambda>i.
           if i = ascii ''luc_calendar'' then Inl (JsError ''fetch failed'')
           else getSVGIcon demo_api i)\<rparr>\<rparr>"

text \<open>An emoji library whose \<^verbatim>\<open>find\<close> throws.\<close>

definition failing_library_env :: plugin_env where
  "failing_library_env =
     calendar_env\<lparr>import_node_emoji := Inr (\<lambda>c. Inl (JsError ''find failed''))\<rparr>"

text \<open>
  The settings tab with the calendar and its icon typed in; with two emoji typed in; and
  an icon service that takes every string holding an emoji for an emoji.
\<close>

definition demo_tab :: settings_tab where
  "demo_tab =
     \<lparr>tab_settings = DEFAULT_SETTINGS, saved_data = [], notices = [],
      emojiInput = calendar, iconInput = ascii ''luc_calendar''\<rparr>"

definition lenient_api :: iconsc_api where
  "lenient_api =
     demo_api\<lparr>isEmoji := (\<lambda>s. Inr (list_ex (\<lambda>c. c \<in> {calendar, grinning, star}) (code_points s)))\<rparr>"

definition two_emoji_tab :: settings_tab where
  "two_emoji_tab = demo_tab\<lparr>emojiInput := calendar @ star\<rparr>"

text \<open>
  A list item that holds the calendar and a nested list, whose only item holds the
  calendar and the star; the element names of that tree.
\<close>

definition nested_list :: node where
  "nested_list =
     ElementNode 0
       [ElementNode 1
          [TextNode 2 calendar,
           ElementNode 3 [ElementNode 4 [TextNode 5 (calendar @ star)]]]]"

definition nested_list_tags :: "node_id \<Rightarrow> string" where
  "nested_list_tags i = (if i = 0 then ''div'' else if i = 3 then ''ul'' else ''li'')"

text \<open>The import of the emoji library fails.\<close>

definition import_failing_env :: plugin_env where
  "import_failing_env = calendar_env\<lparr>import_node_emoji := Inl (JsError ''import failed'')\<rparr>"

text \<open>The settings tab with the calendar and a letter typed into the emoji field.\<close>

definition emoji_and_letter_tab :: settings_tab where
  "emoji_and_letter_tab = demo_tab\<lparr>emojiInput := calendar @ ascii ''a''\<rparr>"

section \<open>Strings: iteration and search\<close>

lemma high_not_low: "is_high_surrogate u \<Longrightarrow> \<not> is_low_surrogate u"
  unfolding is_high_surrogate_def is_low_surrogate_def word_le_nat_alt by simp

lemma concat_code_points: "concat (code_points t) = t"
  by (induction t rule: code_points.induct) auto

lemma code_points_shape:
  "c \<in> set (code_points t) \<Longrightarrow>
     (\<exists>u. c = [u]) \<or> (\<exists>h l. c = [h, l] \<and> is_high_surrogate h \<and> is_low_surrogate l)"
  by (induction t rule: code_points.induct) (auto split: if_splits)

lemma code_points_idem: "c \<in> set (code_points t) \<Longrightarrow> code_points c = [c]"
  using code_points_shape [of c t] by auto

lemma take_eq_length: "take n ys = p \<Longrightarrow> length p \<le> length ys"
  by auto

lemma indexOf_SomeD:
  "indexOf t p = Some i \<Longrightarrow> i + length p \<le> length t \<and> take (length p) (drop i t) = p"
proof (induction t arbitrary: i)
  case Nil
  then show ?case by (simp split: if_splits)
next
  case (Cons x xs)
  show ?case
  proof (cases "take (length p) (x # xs) = p")
    case True
    then have "length p \<le> length (x # xs)" by (rule take_eq_length)
    with True Cons.prems show ?thesis by simp
  next
    case False
    with Cons.prems obtain j where j: "indexOf xs p = Some j" "i = Suc j" by auto
    from Cons.IH [OF j(1)] j(2) show ?thesis by simp
  qed
qed

lemma indexOf_split:
  assumes "indexOf t p = Some i"
  shows "take i t @ p @ drop (i + length p) t = t"
proof -
  from indexOf_SomeD [OF assms] have "take (length p) (drop i t) = p" by simp
  then have "p @ drop (length p) (drop i t) = drop i t"
    by (metis append_take_drop_id)
  then have "take i t @ p @ drop (length p) (drop i t) = t" by simp
  then show ?thesis by (simp add: add.commute)
qed

lemma indexOf_here: "indexOf (p @ suf) p = Some 0"
proof (cases "p @ suf")
  case Nil
  then show ?thesis by simp
next
  case (Cons a list)
  have "take (length p) (p @ suf) = p" by simp
  with Cons have "take (length p) (a # list) = p" by simp
  with Cons show ?thesis by simp
qed

lemma indexOf_occurs: "\<exists>i. indexOf (pre @ p @ suf) p = Some i"
  by (induction pre) (auto simp: indexOf_here)

lemma in_code_points_indexOf:
  assumes "c \<in> set (code_points t)"
  shows "\<exists>i. indexOf t c = Some i"
proof -
  from assms obtain ys zs where "code_points t = ys @ c # zs"
    by (auto simp: in_set_conv_decomp)
  then have "concat (code_points t) = concat ys @ c @ concat zs" by simp
  then have "t = concat ys @ c @ concat zs" by (simp add: concat_code_points)
  then show ?thesis using indexOf_occurs by metis
qed

lemma code_points_scalar_head:
  "scalar_char c \<Longrightarrow> code_points (c @ suf) = c # code_points suf"
  by (cases suf) (auto simp: scalar_char_def split: list.splits)

lemma code_points_append:
  "scalar_char c \<Longrightarrow> code_points (pre @ c @ suf) = code_points pre @ c # code_points suf"
proof (induction pre rule: code_points.induct)
  case 1
  then show ?case by (simp add: code_points_scalar_head)
next
  case (2 u)
  then obtain c0 cs where c: "c = c0 # cs" and "\<not> is_low_surrogate c0"
    by (auto simp: scalar_char_def high_not_low split: list.splits)
  with 2 code_points_scalar_head [of c suf] show ?case by simp
next
  case (3 u v rest)
  then show ?case by simp
qed

lemma indexOf_first:
  "scalar_char c \<Longrightarrow> c \<notin> set (code_points pre) \<Longrightarrow> indexOf (pre @ c @ suf) c = Some (length pre)"
proof (induction pre rule: code_points.induct)
  case 1
  then show ?case by (cases c) (auto simp: scalar_char_def)
next
  case (2 u)
  then show ?case
    by (cases c) (auto simp: scalar_char_def high_not_low split: list.splits)
next
  case (3 u v rest)
  then show ?case
    by (cases c) (auto simp: scalar_char_def high_not_low split: list.splits if_splits)
qed

section \<open>One run of the loop body\<close>

lemma replaceTextWithIcon_attached:
  "indexOf t emoji = Some idx \<Longrightarrow>
   replaceTextWithIcon True (TextNode i t) emoji svg rt =
     (Some [TextNode (next_id rt) (take idx t), IconNode (next_id rt + 2) svg,
            TextNode (next_id rt + 1) (drop (idx + length emoji) t)],
      rt\<lparr>next_id := next_id rt + 3\<rparr>)"
  by (simp add: replaceTextWithIcon_def substring_def substring_from_def)

lemma substitute_icon_found:
  assumes "hasIcon (iconSC env) iconId = Inr True"
    and "getSVGIcon (iconSC env) iconId = Inr (Some svg)"
    and "indexOf t char = Some idx"
  shows "substitute_icon env True (TextNode i t) char iconId rt =
     Break [TextNode (next_id rt) (take idx t), IconNode (next_id rt + 2) svg,
            TextNode (next_id rt + 1) (drop (idx + length char) t)]
       ((called (CallGetSVGIcon iconId) (called (CallHasIcon iconId) rt))\<lparr>next_id := next_id rt + 3\<rparr>)"
  using assms by (simp add: substitute_icon_def replaceTextWithIcon_attached called_def)

lemma scan_char_custom:
  assumes "customEmojiMappings (plugin_settings env) char = Some iconId" and "iconId \<noteq> []"
    and "hasIcon (iconSC env) iconId = Inr True"
    and "getSVGIcon (iconSC env) iconId = Inr (Some svg)"
    and "indexOf t char = Some idx"
  shows "scan_char env True (TextNode i t) char rt =
     Break [TextNode (next_id rt) (take idx t), IconNode (next_id rt + 2) svg,
            TextNode (next_id rt + 1) (drop (idx + length char) t)]
       ((called (CallGetSVGIcon iconId) (called (CallHasIcon iconId) rt))\<lparr>next_id := next_id rt + 3\<rparr>)"
  using assms by (simp add: scan_char_def custom_mapping_path_def substitute_icon_found)

lemma scan_char_inert:
  "inert env c \<Longrightarrow> \<exists>rt'. scan_char env hp node c rt = Continue rt' \<and> next_id rt' = next_id rt"
  by (auto simp: inert_def scan_char_def custom_mapping_path_def called_def)

lemma scan_chars_inert_prefix:
  assumes "\<forall>c \<in> set pre. inert env c"
  shows "\<exists>rt'. scan_chars env hp node (pre @ rest) rt = scan_chars env hp node rest rt' \<and>
               next_id rt' = next_id rt"
  using assms
proof (induction pre arbitrary: rt)
  case Nil
  show ?case by (rule exI [of _ rt]) simp
next
  case (Cons c pre)
  from Cons.prems have "inert env c" by simp
  then obtain rt1 where s: "scan_char env hp node c rt = Continue rt1" "next_id rt1 = next_id rt"
    using scan_char_inert by blast
  from Cons.prems have "\<forall>c \<in> set pre. inert env c" by simp
  from Cons.IH [OF this, of rt1] s show ?case by auto
qed

lemma replaceTextWithIcon_SomeD:
  assumes "replaceTextWithIcon hp (TextNode i t) c svg rt = (Some ns, rt')"
  shows "\<exists>idx. indexOf t c = Some idx \<and>
           ns = [TextNode (next_id rt) (take idx t), IconNode (next_id rt + 2) svg,
                 TextNode (next_id rt + 1) (drop (idx + length c) t)]"
  using assms
  by (auto simp: replaceTextWithIcon_def substring_def substring_from_def Let_def
      split: option.splits if_splits)

lemma substitute_icon_BreakD:
  assumes "substitute_icon env hp (TextNode i t) c iconId rt = Break ns rt'"
  shows "\<exists>idx svg n. indexOf t c = Some idx \<and>
           hasIcon (iconSC env) iconId = Inr True \<and>
           getSVGIcon (iconSC env) iconId = Inr (Some svg) \<and>
           ns = [TextNode n (take idx t), IconNode (n + 2) svg,
                 TextNode (n + 1) (drop (idx + length c) t)]"
proof -
  from assms obtain svg rt2 where
    "hasIcon (iconSC env) iconId = Inr True" "getSVGIcon (iconSC env) iconId = Inr (Some svg)"
    "replaceTextWithIcon hp (TextNode i t) c svg rt2 = (Some ns, rt')"
    by (auto simp: substitute_icon_def Let_def split: sum.splits bool.splits option.splits prod.splits if_splits)
  with replaceTextWithIcon_SomeD [of hp i t c svg rt2 ns rt'] show ?thesis by blast
qed

lemma scan_char_BreakD:
  assumes "scan_char env hp (TextNode i t) c rt = Break ns rt'"
  shows "\<exists>idx svg n. indexOf t c = Some idx \<and>
           ns = [TextNode n (take idx t), IconNode (n + 2) svg,
                 TextNode (n + 1) (drop (idx + length c) t)]"
proof -
  from assms have "\<exists>iconId st. substitute_icon env hp (TextNode i t) c iconId st = Break ns rt'"
    by (auto simp: scan_char_def custom_mapping_path_def heuristic_path_def heuristic_try_body_def
        heuristic_lookup_def Let_def
        split: step.splits option.splits if_splits sum.splits bool.splits)
  then show ?thesis using substitute_icon_BreakD by blast
qed

lemma scan_chars_BreakD:
  assumes "scan_chars env hp (TextNode i t) cs rt = Break ns rt'"
  shows "\<exists>c idx svg n. c \<in> set cs \<and> indexOf t c = Some idx \<and>
           ns = [TextNode n (take idx t), IconNode (n + 2) svg,
                 TextNode (n + 1) (drop (idx + length c) t)]"
  using assms
proof (induction cs arbitrary: rt)
  case Nil
  then show ?case by simp
next
  case (Cons c cs)
  show ?case
  proof (cases "scan_char env hp (TextNode i t) c rt")
    case (Continue rt1)
    with Cons.prems have "scan_chars env hp (TextNode i t) cs rt1 = Break ns rt'" by simp
    from Cons.IH [OF this] show ?thesis by auto
  next
    case (Break ms rt1)
    with Cons.prems have "ms = ns" by simp
    with Break scan_char_BreakD [of env hp i t c rt ns rt1] show ?thesis by auto
  next
    case (Throw e rt1)
    with Cons.prems show ?thesis by simp
  qed
qed

section \<open>The heuristic path switched off\<close>

lemma heuristic_untouched_refl: "heuristic_untouched rt rt"
  by (simp add: heuristic_untouched_def)

lemma heuristic_untouched_trans:
  "heuristic_untouched a b \<Longrightarrow> heuristic_untouched b c \<Longrightarrow> heuristic_untouched a c"
  by (simp add: heuristic_untouched_def)

lemma replaceTextWithIcon_runtime:
  "replaceTextWithIcon hp node c svg rt = (r, rt') \<Longrightarrow>
   calls rt' = calls rt \<and> emojiModule rt' = emojiModule rt \<and> console rt' = console rt"
  by (auto simp: replaceTextWithIcon_def Let_def split: option.splits if_splits)

lemma substitute_icon_quiet:
  "heuristic_untouched rt (runtime_of (substitute_icon env hp node c iconId rt))"
  by (auto simp: substitute_icon_def heuristic_untouched_def called_def Let_def
      split: sum.splits bool.splits option.splits prod.splits
      dest!: replaceTextWithIcon_runtime)

lemma custom_mapping_path_quiet:
  "heuristic_untouched rt (runtime_of (custom_mapping_path env hp node c rt))"
  by (simp add: custom_mapping_path_def substitute_icon_quiet heuristic_untouched_refl
      split: option.splits)

lemma scan_char_without_heuristic:
  "isMobileDevice env \<or> \<not> enableDefaultIconSearch (plugin_settings env) \<Longrightarrow>
   scan_char env hp node c rt = custom_mapping_path env hp node c rt"
  by (auto simp: scan_char_def split: step.splits)

lemma scan_chars_quiet:
  assumes "isMobileDevice env \<or> \<not> enableDefaultIconSearch (plugin_settings env)"
  shows "heuristic_untouched rt (runtime_of (scan_chars env hp node cs rt))"
proof (induction cs arbitrary: rt)
  case Nil
  show ?case by (simp add: heuristic_untouched_refl)
next
  case (Cons c cs)
  have q: "heuristic_untouched rt (runtime_of (scan_char env hp node c rt))"
    by (simp add: scan_char_without_heuristic [OF assms] custom_mapping_path_quiet)
  show ?case
  proof (cases "scan_char env hp node c rt")
    case (Continue rt1)
    with q have "heuristic_untouched rt rt1" by simp
    from heuristic_untouched_trans [OF this Cons.IH [of rt1]] Continue show ?thesis by simp
  next
    case (Break ns rt1)
    with q show ?thesis by simp
  next
    case (Throw e rt1)
    with q show ?thesis by simp
  qed
qed

lemma leaf_runtime:
  "snd (snd (processTextNodes env hp (TextNode i t) rt)) =
     runtime_of (scan_chars env hp (TextNode i t) (code_points t) rt)"
  by (simp split: step.splits)

lemma traversal_quiet:
  "isMobileDevice env \<or> \<not> enableDefaultIconSearch (plugin_settings env) \<Longrightarrow>
     heuristic_untouched rt (snd (snd (processTextNodes env hp n rt)))"
  "isMobileDevice env \<or> \<not> enableDefaultIconSearch (plugin_settings env) \<Longrightarrow>
     heuristic_untouched rt (snd (snd (processChildren env ns rt)))"
proof (induction env hp n rt and env ns rt rule: processTextNodes_processChildren.induct)
  case (1 env has_parent i t rt)
  from scan_chars_quiet [OF 1, of rt has_parent "TextNode i t" "code_points t"]
  show ?case by (simp only: leaf_runtime)
next
  case (2 env has_parent i cs rt)
  then show ?case by (auto split: prod.splits)
next
  case (3 env has_parent i g rt)
  show ?case by (simp add: heuristic_untouched_refl)
next
  case (4 env rt)
  show ?case by (simp add: heuristic_untouched_refl)
next
  case (5 env child rest rt)
  obtain r ms rt1 where c: "processTextNodes env True child rt = (r, ms, rt1)"
    by (cases "processTextNodes env True child rt") auto
  from 5(1) [OF 5(3)] c have q1: "heuristic_untouched rt rt1" by simp
  show ?case
  proof (cases r)
    case Completed
    obtain r2 ms2 rt2 where d: "processChildren env rest rt1 = (r2, ms2, rt2)"
      by (cases "processChildren env rest rt1") auto
    from 5(2) [OF c [symmetric] Completed refl 5(3)] d have "heuristic_untouched rt1 rt2"
      by simp
    with q1 c d Completed show ?thesis
      by (simp add: heuristic_untouched_trans)
  next
    case (Threw e)
    with c q1 show ?thesis by simp
  qed
qed

section \<open>The emoji library in use\<close>

lemma active_module_called [simp]: "active_module env (called c rt) = active_module env rt"
  by (simp add: active_module_def called_def)

lemma replaceTextWithIcon_module:
  "replaceTextWithIcon hp node c svg rt = (r, rt') \<Longrightarrow> active_module env rt' = active_module env rt"
  by (auto simp: replaceTextWithIcon_def active_module_def Let_def split: option.splits if_splits)

lemma substitute_icon_module:
  "active_module env (runtime_of (substitute_icon env hp node c iconId rt)) = active_module env rt"
  by (auto simp: substitute_icon_def Let_def
      split: sum.splits bool.splits option.splits prod.splits
      dest!: replaceTextWithIcon_module [where env = env])

lemma heuristic_lookup_module:
  "active_module env (runtime_of (heuristic_lookup env hp node c m rt)) = active_module env rt"
  by (auto simp: heuristic_lookup_def Let_def substitute_icon_module split: sum.splits option.splits)

lemma heuristic_try_body_module:
  "active_module env (runtime_of (heuristic_try_body env hp node c rt)) = active_module env rt"
proof (cases "emojiModule rt")
  case None
  show ?thesis
  proof (cases "import_node_emoji env")
    case (Inl e)
    with None show ?thesis
      by (simp add: heuristic_try_body_def active_module_def called_def)
  next
    case (Inr m)
    have "active_module env ((called CallImport rt)\<lparr>emojiModule := Some m\<rparr>) = active_module env rt"
      using None Inr by (simp add: active_module_def called_def)
    with None Inr heuristic_lookup_module [of env hp node c m "(called CallImport rt)\<lparr>emojiModule := Some m\<rparr>"]
    show ?thesis by (simp add: heuristic_try_body_def)
  qed
next
  case (Some m)
  then show ?thesis by (simp add: heuristic_try_body_def heuristic_lookup_module)
qed

lemma heuristic_path_module:
  "active_module env (runtime_of (heuristic_path env hp node c rt)) = active_module env rt"
  using heuristic_try_body_module [of env hp node c rt]
  by (auto simp: heuristic_path_def active_module_def split: step.splits)

lemma custom_mapping_path_module:
  "active_module env (runtime_of (custom_mapping_path env hp node c rt)) = active_module env rt"
  by (simp add: custom_mapping_path_def substitute_icon_module split: option.splits)

lemma scan_char_module:
  "active_module env (runtime_of (scan_char env hp node c rt)) = active_module env rt"
proof (cases "custom_mapping_path env hp node c rt")
  case (Continue rt1)
  with custom_mapping_path_module [of env hp node c rt]
  have m: "active_module env rt1 = active_module env rt" by simp
  with Continue heuristic_path_module [of env hp node c "called (CallIsEmoji c) rt1"]
  show ?thesis
    by (simp add: scan_char_def Let_def split: sum.splits bool.splits)
next
  case (Break ns rt1)
  with custom_mapping_path_module [of env hp node c rt] show ?thesis by (simp add: scan_char_def)
next
  case (Throw e rt1)
  with custom_mapping_path_module [of env hp node c rt] show ?thesis by (simp add: scan_char_def)
qed

lemma heuristic_resolves_cong:
  "active_module env rt' = active_module env rt \<Longrightarrow>
   heuristic_resolves env rt' c = heuristic_resolves env rt c"
  by (simp add: heuristic_resolves_def)

lemma substitute_icon_Break_found:
  "substitute_icon env hp node c iconId rt = Break ns rt' \<Longrightarrow>
   hasIcon (iconSC env) iconId = Inr True \<and> (\<exists>svg. getSVGIcon (iconSC env) iconId = Inr (Some svg))"
  by (auto simp: substitute_icon_def Let_def split: sum.splits bool.splits option.splits prod.splits)

lemma heuristic_path_Break_resolves:
  assumes "heuristic_path env hp node c rt = Break ns rt'"
  shows "\<exists>m key. active_module env rt = Some m \<and> m c = Inr (Some key) \<and>
           hasIcon (iconSC env) (luc_prefix @ key) = Inr True \<and>
           (\<exists>svg. getSVGIcon (iconSC env) (luc_prefix @ key) = Inr (Some svg))"
proof -
  from assms have b: "heuristic_try_body env hp node c rt = Break ns rt'"
    by (auto simp: heuristic_path_def split: step.splits)
  then obtain m st where m: "active_module env rt = Some m"
      and l: "heuristic_lookup env hp node c m st = Break ns rt'"
    by (auto simp: heuristic_try_body_def active_module_def Let_def split: option.splits sum.splits)
  from l obtain key rt1 where "m c = Inr (Some key)"
      "substitute_icon env hp node c (luc_prefix @ key) rt1 = Break ns rt'"
    by (auto simp: heuristic_lookup_def Let_def split: sum.splits option.splits)
  with m substitute_icon_Break_found show ?thesis by blast
qed

lemma scan_char_no_match:
  assumes "customEmojiMappings (plugin_settings env) c = None"
    and "\<not> heuristic_resolves env rt c"
  shows "scan_char env hp node c rt \<noteq> Break ns rt'"
proof
  assume b: "scan_char env hp node c rt = Break ns rt'"
  from assms(1) have cu: "custom_mapping_path env hp node c rt = Continue rt"
    by (simp add: custom_mapping_path_def)
  with b have run: "\<not> isMobileDevice env" "enableDefaultIconSearch (plugin_settings env)"
      "isEmoji (iconSC env) c = Inr True"
      "heuristic_path env hp node c (called (CallIsEmoji c) rt) = Break ns rt'"
    by (auto simp: scan_char_def Let_def split: if_splits sum.splits bool.splits)
  from heuristic_path_Break_resolves [OF run(4)] run(1-3)
  have "heuristic_resolves env rt c"
    by (auto simp: heuristic_resolves_def)
  with assms(2) show False by simp
qed

lemma scan_chars_no_match:
  assumes "\<forall>c \<in> set cs. customEmojiMappings (plugin_settings env) c = None \<and>
             \<not> heuristic_resolves env rt c"
  shows "scan_chars env hp node cs rt \<noteq> Break ns rt'"
  using assms
proof (induction cs arbitrary: rt)
  case Nil
  show ?case by simp
next
  case (Cons c cs)
  from Cons.prems have nb: "scan_char env hp node c rt \<noteq> Break ns rt'"
    by (simp add: scan_char_no_match)
  show ?case
  proof (cases "scan_char env hp node c rt")
    case (Continue rt1)
    with scan_char_module [of env hp node c rt]
    have "active_module env rt1 = active_module env rt" by simp
    then have "\<And>c. heuristic_resolves env rt1 c = heuristic_resolves env rt c"
      by (rule heuristic_resolves_cong)
    with Cons.prems have "\<forall>c \<in> set cs. customEmojiMappings (plugin_settings env) c = None \<and>
             \<not> heuristic_resolves env rt1 c"
      by simp
    from Cons.IH [OF this] Continue show ?thesis by simp
  next
    case (Break ms rt1)
    with Cons.prems scan_char_no_match [of env c rt hp node ms rt1] show ?thesis by simp
  next
    case (Throw e rt1)
    then show ?thesis by simp
  qed
qed

section \<open>Traversals that agree\<close>

lemma scan_chars_cong:
  assumes "\<And>c rt. c \<in> set cs \<Longrightarrow> scan_char env1 hp node c rt = scan_char env2 hp node c rt"
  shows "scan_chars env1 hp node cs rt = scan_chars env2 hp node cs rt"
  using assms by (induction cs arbitrary: rt) (auto split: step.splits)

lemma traversal_cong:
  assumes "\<And>hp node c rt. code_points c = [c] \<Longrightarrow>
             scan_char env1 hp node c rt = scan_char env2 hp node c rt"
  shows "processTextNodes env1 hp n rt = processTextNodes env2 hp n rt"
proof (induction n arbitrary: hp rt)
  case (TextNode i t)
  have "scan_chars env1 hp (TextNode i t) (code_points t) rt =
        scan_chars env2 hp (TextNode i t) (code_points t) rt"
    by (rule scan_chars_cong) (simp add: assms code_points_idem)
  then show ?case by simp
next
  case (ElementNode i cs)
  then have "processChildren env1 cs rt = processChildren env2 cs rt"
  proof (induction cs arbitrary: rt)
    case Nil
    show ?case by simp
  next
    case (Cons c cs)
    have 1: "processTextNodes env1 True c rt = processTextNodes env2 True c rt"
      by (rule Cons.prems) simp
    have "\<And>rt. processChildren env1 cs rt = processChildren env2 cs rt"
      by (rule Cons.IH) (simp add: Cons.prems)
    with 1 show ?case by (simp split: prod.splits completion.splits)
  qed
  then show ?case by simp
next
  case (IconNode i g)
  show ?case by simp
qed

lemma substitute_icon_api:
  "iconSC env1 = iconSC env2 \<Longrightarrow>
   substitute_icon env1 hp node c iconId rt = substitute_icon env2 hp node c iconId rt"
  by (simp add: substitute_icon_def cong: sum.case_cong bool.case_cong)

lemma custom_mapping_path_api:
  assumes "iconSC env1 = iconSC env2"
    and "customEmojiMappings (plugin_settings env1) c = customEmojiMappings (plugin_settings env2) c"
  shows "custom_mapping_path env1 hp node c rt = custom_mapping_path env2 hp node c rt"
  using assms(2) substitute_icon_api [OF assms(1)]
  by (simp add: custom_mapping_path_def split: option.splits)

lemma custom_mapping_path_flag:
  "custom_mapping_path (env\<lparr>plugin_settings := (plugin_settings env)\<lparr>enableDefaultIconSearch := b\<rparr>\<rparr>) hp node c rt =
   custom_mapping_path env hp node c rt"
  by (rule custom_mapping_path_api) simp_all

lemma custom_mapping_path_mobile:
  "custom_mapping_path (env\<lparr>isMobileDevice := b\<rparr>) hp node c rt =
   custom_mapping_path env hp node c rt"
  by (rule custom_mapping_path_api) simp_all

lemma count_import:
  "filter heuristic_call xs = filter heuristic_call ys \<Longrightarrow>
   count_list xs CallImport = count_list ys CallImport"
proof -
  assume a: "filter heuristic_call xs = filter heuristic_call ys"
  have f: "\<And>zs. filter ((=) CallImport) (filter heuristic_call zs) = filter ((=) CallImport) zs"
    by (auto intro: filter_cong)
  have "filter ((=) CallImport) xs = filter ((=) CallImport) ys"
    using a f by metis
  then show ?thesis by (simp add: count_list_eq_length_filter)
qed

lemma heuristic_path_api:
  assumes "iconSC env1 = iconSC env2" and "import_node_emoji env1 = import_node_emoji env2"
  shows "heuristic_path env1 hp node c rt = heuristic_path env2 hp node c rt"
proof -
  have l: "\<And>m rt. heuristic_lookup env1 hp node c m rt = heuristic_lookup env2 hp node c m rt"
    using substitute_icon_api [OF assms(1)]
    by (simp add: heuristic_lookup_def cong: sum.case_cong option.case_cong)
  have "heuristic_try_body env1 hp node c rt = heuristic_try_body env2 hp node c rt"
    using assms(2) l
    by (simp add: heuristic_try_body_def cong: sum.case_cong option.case_cong)
  then show ?thesis by (simp add: heuristic_path_def)
qed

lemma scan_char_api:
  assumes "iconSC env1 = iconSC env2" and "import_node_emoji env1 = import_node_emoji env2"
    and "isMobileDevice env1 = isMobileDevice env2"
    and "enableDefaultIconSearch (plugin_settings env1) = enableDefaultIconSearch (plugin_settings env2)"
    and "customEmojiMappings (plugin_settings env1) c = customEmojiMappings (plugin_settings env2) c"
  shows "scan_char env1 hp node c rt = scan_char env2 hp node c rt"
  using assms(1,3,4) custom_mapping_path_api [OF assms(1) assms(5)]
    heuristic_path_api [OF assms(1) assms(2)]
  by (simp add: scan_char_def cong: step.case_cong sum.case_cong bool.case_cong if_cong)

section \<open>Exceptions\<close>

lemma heuristic_path_no_throw: "heuristic_path env hp node c rt \<noteq> Throw e rt'"
  by (simp add: heuristic_path_def split: step.splits)

lemma heuristic_path_catches:
  "heuristic_try_body env hp node c rt = Throw e rt' \<Longrightarrow>
   heuristic_path env hp node c rt =
     Continue (rt'\<lparr>console := console rt' @ [Error_using_node_emoji e]\<rparr>)"
  by (simp add: heuristic_path_def)

lemma scan_char_Throw_origin:
  assumes "scan_char env hp node c rt = Throw e rt'"
  shows "custom_mapping_path env hp node c rt = Throw e rt' \<or>
         (\<exists>rt1. custom_mapping_path env hp node c rt = Continue rt1 \<and>
                isEmoji (iconSC env) c = Inl e)"
proof (cases "custom_mapping_path env hp node c rt")
  case (Continue rt1)
  with assms heuristic_path_no_throw [of env hp node c "called (CallIsEmoji c) rt1" e rt']
  show ?thesis
    by (auto simp: scan_char_def Let_def split: if_splits sum.splits bool.splits)
next
  case (Break ns rt1)
  with assms show ?thesis by (simp add: scan_char_def)
next
  case (Throw e1 rt1)
  with assms show ?thesis by (simp add: scan_char_def)
qed

lemma custom_mapping_path_no_throw:
  assumes "unguarded_calls_return env c"
  shows "custom_mapping_path env hp node c rt \<noteq> Throw e rt'"
proof
  assume t: "custom_mapping_path env hp node c rt = Throw e rt'"
  then obtain I where I: "customEmojiMappings (plugin_settings env) c = Some I" "I \<noteq> []"
      and s: "substitute_icon env hp node c I rt = Throw e rt'"
    by (auto simp: custom_mapping_path_def split: option.splits if_splits)
  from s have "hasIcon (iconSC env) I = Inl e \<or>
      (hasIcon (iconSC env) I = Inr True \<and> getSVGIcon (iconSC env) I = Inl e)"
    by (auto simp: substitute_icon_def Let_def
        split: sum.splits bool.splits option.splits prod.splits)
  with assms I show False
    by (auto simp: unguarded_calls_return_def)
qed

lemma scan_char_no_throw:
  assumes "unguarded_calls_return env c"
  shows "scan_char env hp node c rt \<noteq> Throw e rt'"
proof
  assume t: "scan_char env hp node c rt = Throw e rt'"
  from scan_char_Throw_origin [OF t] custom_mapping_path_no_throw [OF assms]
  obtain rt1 where c: "custom_mapping_path env hp node c rt = Continue rt1"
      and e: "isEmoji (iconSC env) c = Inl e"
    by blast
  from t c have "\<not> isMobileDevice env" "enableDefaultIconSearch (plugin_settings env)"
    by (auto simp: scan_char_def split: if_splits)
  with assms e show False
    by (simp add: unguarded_calls_return_def)
qed

lemma scan_chars_no_throw:
  assumes "\<forall>c \<in> set cs. unguarded_calls_return env c"
  shows "scan_chars env hp node cs rt \<noteq> Throw e rt'"
  using assms
proof (induction cs arbitrary: rt)
  case Nil
  show ?case by simp
next
  case (Cons c cs)
  from Cons.prems have "scan_char env hp node c rt \<noteq> Throw e rt'"
    by (simp add: scan_char_no_throw)
  moreover from Cons.prems have "\<And>rt1. scan_chars env hp node cs rt1 \<noteq> Throw e rt'"
    by (intro Cons.IH) simp
  ultimately show ?case
    by (cases "scan_char env hp node c rt") auto
qed

lemma traversal_completes:
  assumes "\<forall>c \<in> set (scanned_chars n). unguarded_calls_return env c"
  shows "fst (processTextNodes env hp n rt) = Completed"
  using assms
proof (induction n arbitrary: hp rt)
  case (TextNode i t)
  then have "\<forall>c \<in> set (code_points t). unguarded_calls_return env c" by simp
  from scan_chars_no_throw [OF this, of hp "TextNode i t" rt] show ?case
    by (cases "scan_chars env hp (TextNode i t) (code_points t) rt") auto
next
  case (ElementNode i cs)
  then have "fst (processChildren env cs rt) = Completed"
  proof (induction cs arbitrary: rt)
    case Nil
    show ?case by simp
  next
    case (Cons c cs)
    have 1: "fst (processTextNodes env True c rt) = Completed"
      using Cons.prems(2) by (intro Cons.prems(1)) simp_all
    have 2: "\<And>rt. fst (processChildren env cs rt) = Completed"
      using Cons.prems by (intro Cons.IH) simp_all
    obtain r ns rt1 where p: "processTextNodes env True c rt = (r, ns, rt1)"
      by (cases "processTextNodes env True c rt") auto
    with 1 have r: "r = Completed" by simp
    from 2 [of rt1] p r show ?case by (auto split: prod.splits)
  qed
  then show ?case by (auto split: prod.splits)
next
  case (IconNode i g)
  show ?case by simp
qed

lemma heuristic_path_import_failure:
  "emojiModule rt = None \<Longrightarrow> import_node_emoji env = Inl e \<Longrightarrow>
   heuristic_path env hp node c rt =
     Continue ((called CallImport rt)\<lparr>console := console rt @ [Failed_to_import_node_emoji e]\<rparr>)"
  by (simp add: heuristic_path_def heuristic_try_body_def called_def)

lemma scan_char_heuristic:
  "custom_mapping_path env hp node c rs = Continue ra \<Longrightarrow> \<not> isMobileDevice env \<Longrightarrow>
   enableDefaultIconSearch (plugin_settings env) \<Longrightarrow> isEmoji (iconSC env) c = Inr True \<Longrightarrow>
   scan_char env hp node c rs = heuristic_path env hp node c (called (CallIsEmoji c) ra)"
  by (simp add: scan_char_def)

section \<open>The check of the emoji field\<close>

lemma one_emoji_loop_True:
  "one_emoji_loop api cs found = Inr True \<Longrightarrow>
   length (filter (\<lambda>c. isEmoji api c = Inr True) cs) + (if found then 1 else 0) \<le> 1"
proof (induction cs arbitrary: found)
  case Nil
  show ?case by simp
next
  case (Cons c cs)
  show ?case
  proof (cases "isEmoji api c")
    case (Inl e)
    with Cons.prems show ?thesis by simp
  next
    case (Inr b)
    show ?thesis
    proof (cases b)
      case True
      with Inr Cons.prems have "\<not> found" "one_emoji_loop api cs True = Inr True"
        by (auto split: if_splits)
      with Cons.IH [of True] Inr True show ?thesis by simp
    next
      case False
      with Inr Cons.prems have "one_emoji_loop api cs found = Inr True" by simp
      with Cons.IH [of found] Inr False show ?thesis by simp
    qed
  qed
qed

lemma one_emoji_loop_returns:
  "\<forall>c \<in> set cs. \<exists>b. isEmoji api c = Inr b \<Longrightarrow>
   one_emoji_loop api cs found =
     Inr (length (filter (\<lambda>c. isEmoji api c = Inr True) cs) + (if found then 1 else 0) \<le> 1)"
proof (induction cs arbitrary: found)
  case Nil
  show ?case by simp
next
  case (Cons c cs)
  from Cons.prems obtain b where b: "isEmoji api c = Inr b" by auto
  from Cons.prems have rest: "\<forall>c \<in> set cs. \<exists>b. isEmoji api c = Inr b" by simp
  show ?case
  proof (cases b)
    case True
    with b Cons.IH [OF rest, of True] show ?thesis by simp
  next
    case False
    with b Cons.IH [OF rest, of found] show ?thesis by simp
  qed
qed

lemma show_notice_keeps:
  "tab_settings (show_notice msg tab) = tab_settings tab \<and>
   saved_data (show_notice msg tab) = saved_data tab \<and>
   notices (show_notice msg tab) = notices tab @ [msg]"
  by (simp add: show_notice_def)

lemma addMapping_cases:
  "(\<exists>msg. addMapping_onClick getApi tab = (Completed, show_notice msg tab)) \<or>
   (\<exists>e. addMapping_onClick getApi tab = (Threw e, tab)) \<or>
   (addMapping_onClick getApi tab = (Completed, store_mapping tab) \<and>
    (\<exists>api. getApi = Some api \<and> emojiInput tab \<noteq> [] \<and> iconInput tab \<noteq> [] \<and>
       isEmoji api (emojiInput tab) = Inr True \<and> emoji_chars api (emojiInput tab) \<le> 1))"
proof (cases "emojiInput tab = [] \<or> iconInput tab = []")
  case True
  then show ?thesis by (auto simp: addMapping_onClick_def)
next
  case False
  note ne = this
  show ?thesis
  proof (cases getApi)
    case None
    with ne show ?thesis by (auto simp: addMapping_onClick_def)
  next
    case (Some api)
    show ?thesis
    proof (cases "isEmoji api (emojiInput tab)")
      case (Inl e)
      with ne Some show ?thesis by (auto simp: addMapping_onClick_def)
    next
      case (Inr b)
      show ?thesis
      proof (cases b)
        case False
        with ne Some Inr show ?thesis by (auto simp: addMapping_onClick_def)
      next
        case True
        show ?thesis
        proof (cases "one_emoji_loop api (code_points (emojiInput tab)) False")
          case (Inl e)
          with ne Some Inr True show ?thesis by (auto simp: addMapping_onClick_def)
        next
          case loop: (Inr ok)
          show ?thesis
          proof (cases ok)
            case False
            with ne Some Inr True loop show ?thesis by (auto simp: addMapping_onClick_def)
          next
            case ok: True
            from one_emoji_loop_True [of api "code_points (emojiInput tab)" False] loop ok
            have "emoji_chars api (emojiInput tab) \<le> 1" by (simp add: emoji_chars_def)
            moreover from ne Some Inr True loop ok
            have "addMapping_onClick getApi tab = (Completed, store_mapping tab)"
              by (simp add: addMapping_onClick_def)
            ultimately show ?thesis using ne Some Inr True by auto
          qed
        qed
      qed
    qed
  qed
qed

lemma store_mapping_effect:
  "customEmojiMappings (tab_settings (store_mapping tab)) =
     (customEmojiMappings (tab_settings tab))(emojiInput tab \<mapsto> iconInput tab) \<and>
   enableDefaultIconSearch (tab_settings (store_mapping tab)) =
     enableDefaultIconSearch (tab_settings tab) \<and>
   saved_data (store_mapping tab) = saved_data tab @ [tab_settings (store_mapping tab)] \<and>
   notices (store_mapping tab) = notices tab \<and>
   emojiInput (store_mapping tab) = [] \<and> iconInput (store_mapping tab) = []"
  by (simp add: store_mapping_def Let_def)

section \<open>What a traversal leaves\<close>

lemma spliced_list_same_aux:
  "(\<And>c. c \<in> set cs \<Longrightarrow> spliced c [c]) \<Longrightarrow> spliced_list cs cs"
proof (induction cs)
  case Nil
  show ?case by (rule no_children)
next
  case (Cons c cs)
  have "spliced c [c]" by (rule Cons.prems) simp
  moreover have "spliced_list cs cs" by (rule Cons.IH) (simp add: Cons.prems)
  ultimately have "spliced_list (c # cs) ([c] @ cs)" by (rule more_children)
  then show ?case by simp
qed

lemma spliced_same: "spliced n [n]"
proof (induction n)
  case (TextNode i t)
  show ?case by (rule leaf_kept)
next
  case (ElementNode i cs)
  then have "spliced_list cs cs" by (rule spliced_list_same_aux)
  then show ?case by (rule element_inside)
next
  case (IconNode i g)
  show ?case by (rule graphic_kept)
qed

lemma spliced_list_same: "spliced_list cs cs"
  by (rule spliced_list_same_aux) (rule spliced_same)

lemma spliced_leaf:
  "spliced (TextNode i t) (fst (snd (processTextNodes env hp (TextNode i t) rt)))"
proof (cases "scan_chars env hp (TextNode i t) (code_points t) rt")
  case (Continue rt1)
  then show ?thesis by (simp add: leaf_kept)
next
  case (Break ns rt1)
  from scan_chars_BreakD [OF this] Break show ?thesis by (auto intro: leaf_split)
next
  case (Throw e rt1)
  then show ?thesis by (simp add: leaf_kept)
qed

lemma spliced_traversal:
  "spliced n (fst (snd (processTextNodes env hp n rt)))"
proof (induction n arbitrary: hp rt)
  case (TextNode i t)
  show ?case by (rule spliced_leaf)
next
  case (ElementNode i cs)
  then have "spliced_list cs (fst (snd (processChildren env cs rt)))"
  proof (induction cs arbitrary: rt)
    case Nil
    show ?case by (simp add: no_children)
  next
    case (Cons c cs)
    obtain r ns rt1 where p: "processTextNodes env True c rt = (r, ns, rt1)"
      by (cases "processTextNodes env True c rt") auto
    have "spliced c (fst (snd (processTextNodes env True c rt)))"
      by (rule Cons.prems) simp
    with p have 1: "spliced c ns" by simp
    show ?case
    proof (cases r)
      case Completed
      obtain r2 ms rt2 where q: "processChildren env cs rt1 = (r2, ms, rt2)"
        by (cases "processChildren env cs rt1") auto
      have "spliced_list cs (fst (snd (processChildren env cs rt1)))"
        by (rule Cons.IH) (simp add: Cons.prems)
      with q have "spliced_list cs ms" by simp
      with 1 have "spliced_list (c # cs) (ns @ ms)" by (rule more_children)
      with p q Completed show ?thesis by simp
    next
      case (Threw e)
      from 1 spliced_list_same [of cs] have "spliced_list (c # cs) (ns @ cs)" by (rule more_children)
      with p Threw show ?thesis by simp
    qed
  qed
  then have "spliced (ElementNode i cs) [ElementNode i (fst (snd (processChildren env cs rt)))]"
    by (rule element_inside)
  then show ?case by (auto split: prod.splits)
next
  case (IconNode i g)
  show ?case by (simp add: graphic_kept)
qed

lemma spliced_icons:
  "spliced n ns \<Longrightarrow> sum_list (map icons ns) \<le> icons n + text_leaves n"
  "spliced_list cs ms \<Longrightarrow>
     sum_list (map icons ms) \<le> sum_list (map icons cs) + sum_list (map text_leaves cs)"
  by (induction rule: spliced_spliced_list.inducts) auto

lemma scan_chars_stops:
  assumes "scan_chars env hp node cs rt = Break ns rt'"
  shows "\<exists>before c after. cs = before @ c # after \<and>
           (\<forall>others. scan_chars env hp node (before @ c # others) rt = Break ns rt')"
  using assms
proof (induction cs arbitrary: rt)
  case Nil
  then show ?case by simp
next
  case (Cons c cs)
  show ?case
  proof (cases "scan_char env hp node c rt")
    case (Continue rt1)
    with Cons.prems have "scan_chars env hp node cs rt1 = Break ns rt'" by simp
    from Cons.IH [OF this] obtain before d after where
      d: "cs = before @ d # after"
        "\<forall>others. scan_chars env hp node (before @ d # others) rt1 = Break ns rt'"
      by blast
    from d(1) have "c # cs = (c # before) @ d # after" by simp
    moreover from d(2) Continue
    have "\<forall>others. scan_chars env hp node ((c # before) @ d # others) rt = Break ns rt'"
      by simp
    ultimately show ?thesis by blast
  next
    case (Break ms rt1)
    with Cons.prems have "\<forall>others. scan_chars env hp node ([] @ c # others) rt = Break ns rt'"
      by simp
    moreover have "c # cs = [] @ c # cs" by simp
    ultimately show ?thesis by blast
  next
    case (Throw e rt1)
    with Cons.prems show ?thesis by simp
  qed
qed

section \<open>Unfolding the definitions on examples\<close>

lemmas engine_defs =
  scan_char_def custom_mapping_path_def substitute_icon_def heuristic_path_def
  heuristic_try_body_def heuristic_lookup_def replaceTextWithIcon_def called_def
  substring_def substring_from_def luc_prefix_def is_high_surrogate_def is_low_surrogate_def

lemmas example_defs =
  calendar_env_def two_mappings_env_def flag_off_env_def mobile_env_def demo_api_def
  demo_module_def demo_runtime_def ascii_def calendar_def grinning_def star_def flag_us_def
  unfetchable_env_def priority_env_def throwing_env_def failing_library_env_def

section \<open>The claims\<close>

text \<open>
  C1. The substitution itself: when the emoji occurs in the text of a leaf attached to a
  parent, \<^verbatim>\<open>replaceTextWithIcon\<close> puts exactly three nodes at the place of the leaf, in this
  order: a new text node with the text before the first occurrence, the graphic, a new
  text node with the text after it; the two texts around the emoji make up the old text,
  and together they are the old text with the first occurrence of the emoji removed.
  The traversal: a leaf attached to a parent has the content \<open>prefix @ E @ suffix\<close>, where
  \<open>E\<close> is one emoji with a custom mapping to the icon identifier \<open>I\<close>, the icon service
  confirms \<open>I\<close> and returns a graphic for it, and the scan passes over every character of
  the prefix. Then the traversal completes with a text node holding the prefix, the
  graphic and a text node holding the suffix at the place of the leaf, and the occurrence
  of \<open>E\<close> after the prefix is its first one in the text.
\<close>

theorem custom_mapping_splits_leaf:
  "(indexOf t e = Some idx \<longrightarrow>
      replaceTextWithIcon True (TextNode j t) e g st =
        (Some [TextNode (next_id st) (take idx t), IconNode (next_id st + 2) g,
               TextNode (next_id st + 1) (drop (idx + length e) t)],
         st\<lparr>next_id := next_id st + 3\<rparr>) \<and>
      take idx t @ e @ drop (idx + length e) t = t \<and>
      take idx t @ drop (idx + length e) t = remove_first t e) \<and>
   (scalar_char E \<and>
    customEmojiMappings (plugin_settings env) E = Some I \<and> I \<noteq> [] \<and>
    hasIcon (iconSC env) I = Inr True \<and>
    getSVGIcon (iconSC env) I = Inr (Some svg) \<and>
    (\<forall>c \<in> set (code_points prefix). inert env c) \<longrightarrow>
      (\<exists>rt'. processTextNodes env True (TextNode i (prefix @ E @ suffix)) rt =
            (Completed,
             [TextNode (next_id rt) prefix, IconNode (next_id rt + 2) svg,
              TextNode (next_id rt + 1) suffix],
             rt')) \<and>
      indexOf (prefix @ E @ suffix) E = Some (length prefix) \<and>
      prefix @ suffix = remove_first (prefix @ E @ suffix) E)"
proof (intro conjI impI)
  assume "indexOf t e = Some idx"
  then show "replaceTextWithIcon True (TextNode j t) e g st =
        (Some [TextNode (next_id st) (take idx t), IconNode (next_id st + 2) g,
               TextNode (next_id st + 1) (drop (idx + length e) t)],
         st\<lparr>next_id := next_id st + 3\<rparr>)"
    and "take idx t @ e @ drop (idx + length e) t = t"
    and "take idx t @ drop (idx + length e) t = remove_first t e"
    by (simp_all add: replaceTextWithIcon_attached indexOf_split remove_first_def)
next
  assume a: "scalar_char E \<and>
    customEmojiMappings (plugin_settings env) E = Some I \<and> I \<noteq> [] \<and>
    hasIcon (iconSC env) I = Inr True \<and>
    getSVGIcon (iconSC env) I = Inr (Some svg) \<and>
    (\<forall>c \<in> set (code_points prefix). inert env c)"
  then have E: "scalar_char E"
    and m: "customEmojiMappings (plugin_settings env) E = Some I" "I \<noteq> []"
    and h: "hasIcon (iconSC env) I = Inr True"
    and g: "getSVGIcon (iconSC env) I = Inr (Some svg)"
    and pre: "\<forall>c \<in> set (code_points prefix). inert env c"
    by simp_all
  let ?t = "prefix @ E @ suffix"
  have notin: "E \<notin> set (code_points prefix)"
    using pre m by (auto simp: inert_def)
  show idx: "indexOf ?t E = Some (length prefix)"
    by (rule indexOf_first [OF E notin])
  have cps: "code_points ?t = code_points prefix @ E # code_points suffix"
    by (rule code_points_append [OF E])
  obtain rt1 where rt1: "scan_chars env True (TextNode i ?t) (code_points ?t) rt =
        scan_chars env True (TextNode i ?t) (E # code_points suffix) rt1"
      and id1: "next_id rt1 = next_id rt"
    using scan_chars_inert_prefix [OF pre, of True "TextNode i ?t" "E # code_points suffix" rt] cps
    by auto
  have "scan_char env True (TextNode i ?t) E rt1 =
     Break [TextNode (next_id rt1) (take (length prefix) ?t), IconNode (next_id rt1 + 2) svg,
            TextNode (next_id rt1 + 1) (drop (length prefix + length E) ?t)]
       ((called (CallGetSVGIcon I) (called (CallHasIcon I) rt1))\<lparr>next_id := next_id rt1 + 3\<rparr>)"
    by (rule scan_char_custom [OF m h g idx])
  then have "scan_chars env True (TextNode i ?t) (code_points ?t) rt =
     Break [TextNode (next_id rt) prefix, IconNode (next_id rt + 2) svg,
            TextNode (next_id rt + 1) suffix]
       ((called (CallGetSVGIcon I) (called (CallHasIcon I) rt1))\<lparr>next_id := next_id rt1 + 3\<rparr>)"
    using rt1 id1 by simp
  then show "\<exists>rt'. processTextNodes env True (TextNode i ?t) rt =
            (Completed,
             [TextNode (next_id rt) prefix, IconNode (next_id rt + 2) svg,
              TextNode (next_id rt + 1) suffix], rt')"
    by simp
  show "prefix @ suffix = remove_first ?t E"
    using idx by (simp add: remove_first_def)
qed

text \<open>
  The scenario of the specification: the mapping of the calendar emoji to
  \<^verbatim>\<open>luc_calendar\<close>, the leaf "Meeting (calendar) today".
\<close>

theorem custom_mapping_splits_leaf_witness:
  "indexOf (ascii ''Meeting '' @ calendar @ ascii '' today'') calendar = Some 8 \<and>
   replaceTextWithIcon True (TextNode 7 (ascii ''Meeting '' @ calendar @ ascii '' today''))
       calendar (Graphic ''luc_calendar'') demo_runtime =
     (Some [TextNode 100 (ascii ''Meeting ''), IconNode 102 (Graphic ''luc_calendar''),
            TextNode 101 (ascii '' today'')],
      demo_runtime\<lparr>next_id := 103\<rparr>) \<and>
   scalar_char calendar \<and>
   customEmojiMappings (plugin_settings calendar_env) calendar = Some (ascii ''luc_calendar'') \<and>
   hasIcon (iconSC calendar_env) (ascii ''luc_calendar'') = Inr True \<and>
   getSVGIcon (iconSC calendar_env) (ascii ''luc_calendar'') = Inr (Some (Graphic ''luc_calendar'')) \<and>
   list_all (inert calendar_env) (code_points (ascii ''Meeting '')) \<and>
   fst (snd (processTextNodes calendar_env True
               (TextNode 7 (ascii ''Meeting '' @ calendar @ ascii '' today'')) demo_runtime)) =
     [TextNode 100 (ascii ''Meeting ''), IconNode 102 (Graphic ''luc_calendar''),
      TextNode 101 (ascii '' today'')]"
proof -
  let ?t = "ascii ''Meeting '' @ calendar @ ascii '' today''"
  have 0: "indexOf ?t calendar = Some 8"
    by (simp add: example_defs)
  have 1: "scalar_char calendar"
    by (simp add: scalar_char_def calendar_def is_high_surrogate_def is_low_surrogate_def)
  have 2: "customEmojiMappings (plugin_settings calendar_env) calendar = Some (ascii ''luc_calendar'')"
    by (simp add: calendar_env_def)
  have 3: "ascii ''luc_calendar'' \<noteq> []" by (simp add: ascii_def)
  have 4: "hasIcon (iconSC calendar_env) (ascii ''luc_calendar'') = Inr True"
    by (simp add: calendar_env_def demo_api_def)
  have 5: "getSVGIcon (iconSC calendar_env) (ascii ''luc_calendar'') = Inr (Some (Graphic ''luc_calendar''))"
    by (simp add: calendar_env_def demo_api_def)
  have 6: "list_all (inert calendar_env) (code_points (ascii ''Meeting ''))"
    by (simp add: inert_def calendar_env_def demo_api_def calendar_def grinning_def star_def
        flag_us_def ascii_def is_high_surrogate_def is_low_surrogate_def)
  then have 7: "\<forall>c \<in> set (code_points (ascii ''Meeting '')). inert calendar_env c"
    by (simp add: list_all_iff)
  note t = custom_mapping_splits_leaf [where t = ?t and e = calendar and idx = 8 and j = 7
      and g = "Graphic ''luc_calendar''" and st = demo_runtime and E = calendar
      and env = calendar_env and I = "ascii ''luc_calendar''" and svg = "Graphic ''luc_calendar''"
      and prefix = "ascii ''Meeting ''" and suffix = "ascii '' today''" and i = 7
      and rt = demo_runtime]
  from t 0 have "replaceTextWithIcon True (TextNode 7 ?t) calendar (Graphic ''luc_calendar'') demo_runtime =
        (Some [TextNode (next_id demo_runtime) (take 8 ?t),
               IconNode (next_id demo_runtime + 2) (Graphic ''luc_calendar''),
               TextNode (next_id demo_runtime + 1) (drop (8 + length calendar) ?t)],
         demo_runtime\<lparr>next_id := next_id demo_runtime + 3\<rparr>)"
    by blast
  then have 8: "replaceTextWithIcon True (TextNode 7 ?t) calendar (Graphic ''luc_calendar'') demo_runtime =
     (Some [TextNode 100 (ascii ''Meeting ''), IconNode 102 (Graphic ''luc_calendar''),
            TextNode 101 (ascii '' today'')],
      demo_runtime\<lparr>next_id := 103\<rparr>)"
    by (simp add: example_defs)
  from t 1 2 3 4 5 7
  have "fst (snd (processTextNodes calendar_env True (TextNode 7 ?t) demo_runtime)) =
     [TextNode (next_id demo_runtime) (ascii ''Meeting ''),
      IconNode (next_id demo_runtime + 2) (Graphic ''luc_calendar''),
      TextNode (next_id demo_runtime + 1) (ascii '' today'')]"
    by auto
  then have 9: "fst (snd (processTextNodes calendar_env True (TextNode 7 ?t) demo_runtime)) =
     [TextNode 100 (ascii ''Meeting ''), IconNode 102 (Graphic ''luc_calendar''),
      TextNode 101 (ascii '' today'')]"
    by (simp add: demo_runtime_def)
  from 0 8 1 2 4 5 6 9 show ?thesis by simp
qed

text \<open>
  C2, as the code has it. The scan goes by Unicode code point, not by grapheme cluster:
  every scanned unit is one code point, the units in order make up the text, and one
  scalar value in the text (a surrogate pair too) is one unit. A mapping whose key is
  not a single code point, such as a flag or an emoji with a skin tone, is never looked
  up: setting or removing it changes no traversal.
\<close>

theorem scan_is_by_code_point:
  "(\<forall>c \<in> set (code_points t). code_points c = [c]) \<and>
   concat (code_points t) = t \<and>
   (scalar_char c \<longrightarrow> code_points (pre @ c @ suf) = code_points pre @ c # code_points suf) \<and>
   (code_points k \<noteq> [k] \<longrightarrow>
      processTextNodes
        (env\<lparr>plugin_settings :=
           (plugin_settings env)\<lparr>customEmojiMappings :=
              (customEmojiMappings (plugin_settings env))(k := v)\<rparr>\<rparr>) hp n rt =
      processTextNodes env hp n rt)"
proof -
  let ?env' = "env\<lparr>plugin_settings :=
           (plugin_settings env)\<lparr>customEmojiMappings :=
              (customEmojiMappings (plugin_settings env))(k := v)\<rparr>\<rparr>"
  have "processTextNodes ?env' hp n rt = processTextNodes env hp n rt" if k: "code_points k \<noteq> [k]"
  proof (rule traversal_cong)
    fix hp node c rt
    assume "code_points c = [c]"
    with k have "c \<noteq> k" by auto
    then show "scan_char ?env' hp node c rt = scan_char env hp node c rt"
      by (intro scan_char_api) simp_all
  qed
  then show ?thesis
    by (simp add: code_points_idem concat_code_points code_points_append)
qed

text \<open>
  The flag is two units; the calendar, a surrogate pair, is one; the mapping keyed on the
  flag makes no difference to the traversal of a leaf that holds the flag.
\<close>

theorem scan_is_by_code_point_witness:
  "list_all (\<lambda>c. code_points c = [c]) (code_points flag_us) \<and>
   scalar_char calendar \<and>
   code_points (ascii ''a'' @ calendar @ ascii ''b'') = [ascii ''a'', calendar, ascii ''b''] \<and>
   code_points flag_us \<noteq> [flag_us] \<and>
   processTextNodes flag_env True (TextNode 7 flag_us) demo_runtime =
     processTextNodes calendar_env True (TextNode 7 flag_us) demo_runtime"
proof -
  have 1: "scalar_char calendar"
    by (simp add: scalar_char_def calendar_def is_high_surrogate_def is_low_surrogate_def)
  have 2: "code_points flag_us \<noteq> [flag_us]"
    by (simp add: flag_us_def is_high_surrogate_def is_low_surrogate_def)
  have 3: "flag_env = calendar_env\<lparr>plugin_settings :=
           (plugin_settings calendar_env)\<lparr>customEmojiMappings :=
              (customEmojiMappings (plugin_settings calendar_env))(flag_us := Some (ascii ''luc_flag''))\<rparr>\<rparr>"
    by (simp add: flag_env_def)
  note t = scan_is_by_code_point [of flag_us calendar "ascii ''a''" "ascii ''b''" flag_us calendar_env
      "Some (ascii ''luc_flag'')" True "TextNode 7 flag_us" demo_runtime]
  from t have "\<forall>c \<in> set (code_points flag_us). code_points c = [c]"
    by (rule conjunct1)
  then have 4: "list_all (\<lambda>c. code_points c = [c]) (code_points flag_us)"
    by (simp only: list_all_iff)
  from t 1 have 5: "code_points (ascii ''a'' @ calendar @ ascii ''b'') = [ascii ''a'', calendar, ascii ''b'']"
    by (simp add: ascii_def)
  from t 2 3 have 6: "processTextNodes flag_env True (TextNode 7 flag_us) demo_runtime =
     processTextNodes calendar_env True (TextNode 7 flag_us) demo_runtime"
    by simp
  from 1 2 4 5 6 show ?thesis by simp
qed

text \<open>
  C2, as the claim has it, fails: the flag has a mapping to an icon that the icon service
  confirms and returns, the icon service takes the flag for an emoji, and the leaf
  holding the flag stays as it is.
\<close>

theorem grapheme_key_never_matches:
  "customEmojiMappings (plugin_settings flag_env) flag_us = Some (ascii ''luc_flag'') \<and>
   hasIcon (iconSC flag_env) (ascii ''luc_flag'') = Inr True \<and>
   getSVGIcon (iconSC flag_env) (ascii ''luc_flag'') = Inr (Some (Graphic ''luc_flag'')) \<and>
   isEmoji (iconSC flag_env) flag_us = Inr True \<and>
   code_points flag_us = [[0xD83C, 0xDDFA], [0xD83C, 0xDDF8]] \<and>
   fst (snd (processTextNodes flag_env True (TextNode 7 flag_us) demo_runtime)) = [TextNode 7 flag_us]"
  by (simp add: flag_env_def engine_defs example_defs)

text \<open>
  C3, as the code has it. A scanned character of a leaf attached to a parent has a custom
  mapping, the icon service confirms the icon and returns a graphic for it: then the loop
  is left with that graphic in place of the character, after the two calls of the custom
  path and no other, whatever the heuristic path would resolve. And for every character,
  either the custom path fell through to line 74, or the run of the loop body is the
  custom path alone.
\<close>

theorem custom_mapping_first:
  "(customEmojiMappings (plugin_settings env) c = Some I \<and> I \<noteq> [] \<and>
    hasIcon (iconSC env) I = Inr True \<and> getSVGIcon (iconSC env) I = Inr (Some svg) \<and>
    c \<in> set (code_points t) \<longrightarrow>
      (\<exists>idx. indexOf t c = Some idx \<and>
         scan_char env True (TextNode i t) c rt =
           Break [TextNode (next_id rt) (take idx t), IconNode (next_id rt + 2) svg,
                  TextNode (next_id rt + 1) (drop (idx + length c) t)]
             (rt\<lparr>calls := calls rt @ [CallHasIcon I, CallGetSVGIcon I],
                 next_id := next_id rt + 3\<rparr>))) \<and>
   ((\<exists>rt1. custom_mapping_path env hp node c rt = Continue rt1) \<or>
    scan_char env hp node c rt = custom_mapping_path env hp node c rt)"
proof -
  have "\<exists>idx. indexOf t c = Some idx \<and>
         scan_char env True (TextNode i t) c rt =
           Break [TextNode (next_id rt) (take idx t), IconNode (next_id rt + 2) svg,
                  TextNode (next_id rt + 1) (drop (idx + length c) t)]
             (rt\<lparr>calls := calls rt @ [CallHasIcon I, CallGetSVGIcon I],
                 next_id := next_id rt + 3\<rparr>)"
    if m: "customEmojiMappings (plugin_settings env) c = Some I" "I \<noteq> []"
      and h: "hasIcon (iconSC env) I = Inr True"
      and g: "getSVGIcon (iconSC env) I = Inr (Some svg)"
      and c: "c \<in> set (code_points t)"
  proof -
    from in_code_points_indexOf [OF c] obtain idx where idx: "indexOf t c = Some idx" ..
    from scan_char_custom [OF m h g idx, of i rt] idx show ?thesis
      by (simp add: called_def)
  qed
  moreover have "(\<exists>rt1. custom_mapping_path env hp node c rt = Continue rt1) \<or>
    scan_char env hp node c rt = custom_mapping_path env hp node c rt"
    by (cases "custom_mapping_path env hp node c rt") (simp_all add: scan_char_def)
  ultimately show ?thesis by blast
qed

text \<open>
  The grinning face is mapped to the star icon and the heuristic path would resolve it to
  \<^verbatim>\<open>luc_smile\<close>: the star is inserted.
\<close>

theorem custom_mapping_first_witness:
  "customEmojiMappings (plugin_settings priority_env) grinning = Some (ascii ''luc_star'') \<and>
   hasIcon (iconSC priority_env) (ascii ''luc_star'') = Inr True \<and>
   getSVGIcon (iconSC priority_env) (ascii ''luc_star'') = Inr (Some (Graphic ''luc_star'')) \<and>
   grinning \<in> set (code_points (ascii ''I '' @ grinning @ ascii '' you'')) \<and>
   heuristic_resolves priority_env demo_runtime grinning \<and>
   scan_char priority_env True (TextNode 7 (ascii ''I '' @ grinning @ ascii '' you'')) grinning demo_runtime =
     Break [TextNode 100 (ascii ''I ''), IconNode 102 (Graphic ''luc_star''), TextNode 101 (ascii '' you'')]
       (demo_runtime\<lparr>calls := [CallHasIcon (ascii ''luc_star''), CallGetSVGIcon (ascii ''luc_star'')],
          next_id := 103\<rparr>)"
proof -
  let ?t = "ascii ''I '' @ grinning @ ascii '' you''"
  have 1: "customEmojiMappings (plugin_settings priority_env) grinning = Some (ascii ''luc_star'')"
    by (simp add: example_defs)
  have 2: "ascii ''luc_star'' \<noteq> []" by (simp add: ascii_def)
  have 3: "hasIcon (iconSC priority_env) (ascii ''luc_star'') = Inr True"
    by (simp add: example_defs example_defs)
  have 4: "getSVGIcon (iconSC priority_env) (ascii ''luc_star'') = Inr (Some (Graphic ''luc_star''))"
    by (simp add: example_defs example_defs)
  have 5: "grinning \<in> set (code_points ?t)"
    by (simp add: example_defs is_high_surrogate_def is_low_surrogate_def)
  have 6: "heuristic_resolves priority_env demo_runtime grinning"
    by (simp add: heuristic_resolves_def active_module_def engine_defs example_defs)
  have 7: "indexOf ?t grinning = Some 2"
    by (simp add: example_defs)
  from custom_mapping_first [of priority_env grinning "ascii ''luc_star''" "Graphic ''luc_star''" ?t 7
      demo_runtime] 1 2 3 4 5 7
  have "scan_char priority_env True (TextNode 7 ?t) grinning demo_runtime =
     Break [TextNode (next_id demo_runtime) (take 2 ?t), IconNode (next_id demo_runtime + 2) (Graphic ''luc_star''),
            TextNode (next_id demo_runtime + 1) (drop (2 + length grinning) ?t)]
       (demo_runtime\<lparr>calls := calls demo_runtime @ [CallHasIcon (ascii ''luc_star''), CallGetSVGIcon (ascii ''luc_star'')],
          next_id := next_id demo_runtime + 3\<rparr>)"
    by simp
  then have "scan_char priority_env True (TextNode 7 ?t) grinning demo_runtime =
     Break [TextNode 100 (ascii ''I ''), IconNode 102 (Graphic ''luc_star''), TextNode 101 (ascii '' you'')]
       (demo_runtime\<lparr>calls := [CallHasIcon (ascii ''luc_star''), CallGetSVGIcon (ascii ''luc_star'')],
          next_id := 103\<rparr>)"
    by (simp add: example_defs)
  with 1 3 4 5 6 show ?thesis by simp
qed

text \<open>
  C3, as the claim has it, fails: the icon of the custom mapping is confirmed by
  \<^verbatim>\<open>hasIcon\<close>, but \<^verbatim>\<open>getSVGIcon\<close> resolves to null for it; the custom path falls through and
  the graphic inserted is the heuristic one.
\<close>

theorem unfetchable_custom_icon_falls_back:
  "customEmojiMappings (plugin_settings unfetchable_env) grinning = Some (ascii ''luc_heart'') \<and>
   hasIcon (iconSC unfetchable_env) (ascii ''luc_heart'') = Inr True \<and>
   getSVGIcon (iconSC unfetchable_env) (ascii ''luc_heart'') = Inr None \<and>
   heuristic_resolves unfetchable_env demo_runtime grinning \<and>
   fst (snd (processTextNodes unfetchable_env True
              (TextNode 7 (ascii ''I '' @ grinning @ ascii '' you'')) demo_runtime)) =
     [TextNode 100 (ascii ''I ''), IconNode 102 (Graphic ''luc_smile''), TextNode 101 (ascii '' you'')]"
  by (simp add: heuristic_resolves_def active_module_def engine_defs example_defs)

text \<open>
  C4, as the code has it. One traversal, that is one call of \<^verbatim>\<open>processTextNodes\<close> on a
  subtree, run to its end, puts at most one graphic into a text leaf. After the traversal
  of a leaf, either the leaf itself stands at its place, or three nodes do: the text
  before the first occurrence of one of its characters, one graphic, and the text after
  that occurrence, as it was. The loop over the characters ends at the replacement: the
  characters behind the replaced one have no part in the result, whatever they are. Over
  a subtree every text leaf is kept or split once in this way and the nodes put in are
  not visited, so the result holds at most the graphics that were there and one more for
  each text leaf.
\<close>

theorem one_substitution_per_traversal:
  "(let ns = fst (snd (processTextNodes env hp (TextNode i t) rt)) in
      ns = [TextNode i t] \<or>
      (\<exists>c idx svg n. c \<in> set (code_points t) \<and> indexOf t c = Some idx \<and>
          ns = [TextNode n (take idx t), IconNode (n + 2) svg,
                TextNode (n + 1) (drop (idx + length c) t)])) \<and>
   (scan_chars env hp node cs rt = Break ms rt' \<longrightarrow>
      (\<exists>before c after. cs = before @ c # after \<and>
         (\<forall>others. scan_chars env hp node (before @ c # others) rt = Break ms rt'))) \<and>
   spliced n (fst (snd (processTextNodes env hq n st))) \<and>
   sum_list (map icons (fst (snd (processTextNodes env hq n st)))) \<le> icons n + text_leaves n"
proof (intro conjI impI)
  show "let ns = fst (snd (processTextNodes env hp (TextNode i t) rt)) in
      ns = [TextNode i t] \<or>
      (\<exists>c idx svg n. c \<in> set (code_points t) \<and> indexOf t c = Some idx \<and>
          ns = [TextNode n (take idx t), IconNode (n + 2) svg,
                TextNode (n + 1) (drop (idx + length c) t)])"
  proof (cases "scan_chars env hp (TextNode i t) (code_points t) rt")
    case (Continue rt1)
    then show ?thesis by simp
  next
    case (Break ns rt1)
    from scan_chars_BreakD [OF this] Break show ?thesis by simp
  next
    case (Throw e rt1)
    then show ?thesis by simp
  qed
next
  assume "scan_chars env hp node cs rt = Break ms rt'"
  then show "\<exists>before c after. cs = before @ c # after \<and>
         (\<forall>others. scan_chars env hp node (before @ c # others) rt = Break ms rt')"
    by (rule scan_chars_stops)
next
  show s: "spliced n (fst (snd (processTextNodes env hq n st)))"
    by (rule spliced_traversal)
  then show "sum_list (map icons (fst (snd (processTextNodes env hq n st)))) \<le> icons n + text_leaves n"
    by (rule spliced_icons)
qed

text \<open>
  A leaf holding the calendar and the star, both mapped: the scan ends at the calendar,
  the star stays in the text node after the graphic, and no call for the star is made.
\<close>

theorem one_substitution_per_traversal_witness:
  "customEmojiMappings (plugin_settings two_mappings_env) star = Some (ascii ''luc_star'') \<and>
   scan_chars two_mappings_env True (TextNode 2 (calendar @ star)) [calendar, star] demo_runtime =
     Break [TextNode 100 [], IconNode 102 (Graphic ''luc_calendar''), TextNode 101 star]
       (demo_runtime\<lparr>next_id := 103,
          calls := [CallHasIcon (ascii ''luc_calendar''), CallGetSVGIcon (ascii ''luc_calendar'')]\<rparr>) \<and>
   processTextNodes two_mappings_env True (ElementNode 1 [TextNode 2 (calendar @ star)]) demo_runtime =
     (Completed,
      [ElementNode 1 [TextNode 100 [], IconNode 102 (Graphic ''luc_calendar''), TextNode 101 star]],
      demo_runtime\<lparr>next_id := 103,
        calls := [CallHasIcon (ascii ''luc_calendar''), CallGetSVGIcon (ascii ''luc_calendar'')]\<rparr>) \<and>
   text_leaves (ElementNode 1 [TextNode 2 (calendar @ star)]) = 1 \<and>
   sum_list (map icons (fst (snd (processTextNodes two_mappings_env True
       (ElementNode 1 [TextNode 2 (calendar @ star)]) demo_runtime)))) = 1"
  using one_substitution_per_traversal [where env = two_mappings_env and hp = True and i = 2
      and t = "calendar @ star" and rt = demo_runtime and node = "TextNode 2 (calendar @ star)"
      and cs = "[calendar, star]"
      and ms = "[TextNode 100 [], IconNode 102 (Graphic ''luc_calendar''), TextNode 101 star]"
      and rt' = "demo_runtime\<lparr>next_id := 103,
          calls := [CallHasIcon (ascii ''luc_calendar''), CallGetSVGIcon (ascii ''luc_calendar'')]\<rparr>"
      and n = "ElementNode 1 [TextNode 2 (calendar @ star)]" and hq = True and st = demo_runtime]
  by (simp add: engine_defs example_defs)

text \<open>
  C4, as the claim has it, fails for a render. The post processor starts a traversal for
  each of the two list items and waits for neither. The traversal of the inner item
  splits its leaf at the calendar; the traversal of the outer item comes to the inner
  item afterwards, copies the children it has by then, and scans the text after the
  graphic, where it replaces the star. The leaf ends as two graphics in one render: the
  tree has two text leaves and three graphics are put in.
\<close>

theorem nested_items_scanned_twice:
  "querySelectorAll nested_list_tags nested_list = [1, 4] \<and>
   text_leaves nested_list = 2 \<and>
   map_option (\<lambda>w. (tree w, icons (tree w), rejections w))
     (postProcessor 40 4 two_mappings_env nested_list_tags
        \<lparr>tree = nested_list, runtime_now = demo_runtime, rejections = []\<rparr>) =
     Some (ElementNode 0
        [ElementNode 1
           [TextNode 100 [], IconNode 102 (Graphic ''luc_calendar''), TextNode 101 [],
            ElementNode 3
              [ElementNode 4
                 [TextNode 103 [], IconNode 105 (Graphic ''luc_calendar''), TextNode 106 [],
                  IconNode 108 (Graphic ''luc_star''), TextNode 107 []]]]], 3, [])"
  by code_simp

text \<open>
  C5, as the code has it. The heuristic path never throws. An exception of its \<^verbatim>\<open>try\<close>
  body (from \<^verbatim>\<open>find\<close>, from \<^verbatim>\<open>hasIcon\<close> or \<^verbatim>\<open>getSVGIcon\<close> for the heuristic icon) is logged as
  an error of the emoji library; a failed import is logged as such by the inner handler;
  in both cases the loop goes on with the next character of the leaf, from the state the
  failed call left. An exception that leaves a run of the loop body comes from the custom
  mapping path or from \<^verbatim>\<open>isEmoji\<close>. So when the calls outside the \<^verbatim>\<open>try\<close> return, a traversal
  completes, whatever the import, \<^verbatim>\<open>find\<close> and the icon calls of the heuristic path do.
\<close>

theorem heuristic_errors_contained:
  "heuristic_path env hp node c rt \<noteq> Throw e rt' \<and>
   (heuristic_try_body env hp node c rt = Throw e rt' \<longrightarrow>
      heuristic_path env hp node c rt =
        Continue (rt'\<lparr>console := console rt' @ [Error_using_node_emoji e]\<rparr>)) \<and>
   (emojiModule rt = None \<and> import_node_emoji env = Inl e \<longrightarrow>
      heuristic_path env hp node c rt =
        Continue ((called CallImport rt)\<lparr>console := console rt @ [Failed_to_import_node_emoji e]\<rparr>)) \<and>
   (custom_mapping_path env hp node c rs = Continue ra \<and> \<not> isMobileDevice env \<and>
    enableDefaultIconSearch (plugin_settings env) \<and> isEmoji (iconSC env) c = Inr True \<longrightarrow>
      (heuristic_try_body env hp node c (called (CallIsEmoji c) ra) = Throw e rb \<longrightarrow>
         scan_chars env hp node (c # cs) rs =
           scan_chars env hp node cs (rb\<lparr>console := console rb @ [Error_using_node_emoji e]\<rparr>)) \<and>
      (emojiModule ra = None \<and> import_node_emoji env = Inl e \<longrightarrow>
         scan_chars env hp node (c # cs) rs =
           scan_chars env hp node cs
             ((called CallImport (called (CallIsEmoji c) ra))
                \<lparr>console := console ra @ [Failed_to_import_node_emoji e]\<rparr>))) \<and>
   (scan_char env hp node c rt = Throw e rt' \<longrightarrow>
      custom_mapping_path env hp node c rt = Throw e rt' \<or>
      (\<exists>rt1. custom_mapping_path env hp node c rt = Continue rt1 \<and>
             isEmoji (iconSC env) c = Inl e)) \<and>
   (list_all (unguarded_calls_return env) (scanned_chars n) \<longrightarrow>
      fst (processTextNodes env hq n st) = Completed)"
proof (intro conjI impI)
  show "heuristic_path env hp node c rt \<noteq> Throw e rt'"
    by (rule heuristic_path_no_throw)
next
  assume "heuristic_try_body env hp node c rt = Throw e rt'"
  then show "heuristic_path env hp node c rt =
        Continue (rt'\<lparr>console := console rt' @ [Error_using_node_emoji e]\<rparr>)"
    by (rule heuristic_path_catches)
next
  assume "emojiModule rt = None \<and> import_node_emoji env = Inl e"
  then show "heuristic_path env hp node c rt =
        Continue ((called CallImport rt)\<lparr>console := console rt @ [Failed_to_import_node_emoji e]\<rparr>)"
    by (simp add: heuristic_path_import_failure)
next
  assume a: "custom_mapping_path env hp node c rs = Continue ra \<and> \<not> isMobileDevice env \<and>
    enableDefaultIconSearch (plugin_settings env) \<and> isEmoji (iconSC env) c = Inr True"
    and b: "heuristic_try_body env hp node c (called (CallIsEmoji c) ra) = Throw e rb"
  from a have "scan_char env hp node c rs = heuristic_path env hp node c (called (CallIsEmoji c) ra)"
    by (simp add: scan_char_heuristic)
  with heuristic_path_catches [OF b]
  show "scan_chars env hp node (c # cs) rs =
           scan_chars env hp node cs (rb\<lparr>console := console rb @ [Error_using_node_emoji e]\<rparr>)"
    by simp
next
  assume a: "custom_mapping_path env hp node c rs = Continue ra \<and> \<not> isMobileDevice env \<and>
    enableDefaultIconSearch (plugin_settings env) \<and> isEmoji (iconSC env) c = Inr True"
    and b: "emojiModule ra = None \<and> import_node_emoji env = Inl e"
  from a have 1: "scan_char env hp node c rs = heuristic_path env hp node c (called (CallIsEmoji c) ra)"
    by (simp add: scan_char_heuristic)
  from b have "emojiModule (called (CallIsEmoji c) ra) = None" by (simp add: called_def)
  from heuristic_path_import_failure [OF this, of env e hp node c] b
  have "heuristic_path env hp node c (called (CallIsEmoji c) ra) =
     Continue ((called CallImport (called (CallIsEmoji c) ra))
                \<lparr>console := console ra @ [Failed_to_import_node_emoji e]\<rparr>)"
    by (simp add: called_def)
  with 1 show "scan_chars env hp node (c # cs) rs =
           scan_chars env hp node cs
             ((called CallImport (called (CallIsEmoji c) ra))
                \<lparr>console := console ra @ [Failed_to_import_node_emoji e]\<rparr>)"
    by simp
next
  assume "scan_char env hp node c rt = Throw e rt'"
  then show "custom_mapping_path env hp node c rt = Throw e rt' \<or>
      (\<exists>rt1. custom_mapping_path env hp node c rt = Continue rt1 \<and>
             isEmoji (iconSC env) c = Inl e)"
    by (rule scan_char_Throw_origin)
next
  assume "list_all (unguarded_calls_return env) (scanned_chars n)"
  then show "fst (processTextNodes env hq n st) = Completed"
    by (simp add: traversal_completes list_all_iff)
qed

text \<open>
  The library's \<^verbatim>\<open>find\<close> throws for the grinning face: the error is logged, the scan goes
  on, and the calendar after it is replaced. The import fails at the grinning face: the
  failure is logged, the scan goes on with the calendar, which is replaced.
\<close>

theorem heuristic_errors_contained_witness:
  "list_all (unguarded_calls_return failing_library_env)
      (scanned_chars (TextNode 7 (grinning @ calendar))) \<and>
   heuristic_try_body failing_library_env True (TextNode 7 (grinning @ calendar)) grinning
       (called (CallIsEmoji grinning) demo_runtime) =
     Throw (JsError ''find failed'')
       (demo_runtime\<lparr>emojiModule := Some (\<lambda>c. Inl (JsError ''find failed'')),
          calls := [CallIsEmoji grinning, CallImport, CallFind grinning]\<rparr>) \<and>
   scan_char failing_library_env True (TextNode 7 (grinning @ calendar)) grinning demo_runtime =
     Continue (demo_runtime\<lparr>emojiModule := Some (\<lambda>c. Inl (JsError ''find failed'')),
          calls := [CallIsEmoji grinning, CallImport, CallFind grinning],
          console := [Error_using_node_emoji (JsError ''find failed'')]\<rparr>) \<and>
   fst (processTextNodes failing_library_env True (TextNode 7 (grinning @ calendar)) demo_runtime) =
     Completed \<and>
   fst (snd (processTextNodes failing_library_env True (TextNode 7 (grinning @ calendar)) demo_runtime)) =
     [TextNode 100 grinning, IconNode 102 (Graphic ''luc_calendar''), TextNode 101 []] \<and>
   import_node_emoji import_failing_env = Inl (JsError ''import failed'') \<and>
   emojiModule demo_runtime = None \<and>
   scan_chars import_failing_env True (TextNode 7 (grinning @ calendar)) [grinning, calendar] demo_runtime =
     scan_chars import_failing_env True (TextNode 7 (grinning @ calendar)) [calendar]
       (demo_runtime\<lparr>calls := [CallIsEmoji grinning, CallImport],
          console := [Failed_to_import_node_emoji (JsError ''import failed'')]\<rparr>) \<and>
   processTextNodes import_failing_env True (TextNode 7 (grinning @ calendar)) demo_runtime =
     (Completed,
      [TextNode 100 grinning, IconNode 102 (Graphic ''luc_calendar''), TextNode 101 []],
      demo_runtime\<lparr>next_id := 103,
        calls := [CallIsEmoji grinning, CallImport, CallHasIcon (ascii ''luc_calendar''),
                  CallGetSVGIcon (ascii ''luc_calendar'')],
        console := [Failed_to_import_node_emoji (JsError ''import failed'')]\<rparr>)"
proof -
  let ?n = "TextNode 7 (grinning @ calendar)"
  let ?rt1 = "called (CallIsEmoji grinning) demo_runtime"
  let ?rt2 = "demo_runtime\<lparr>emojiModule := Some (\<lambda>c. Inl (JsError ''find failed'')),
          calls := [CallIsEmoji grinning, CallImport, CallFind grinning]\<rparr>"
  have 1: "list_all (unguarded_calls_return failing_library_env) (scanned_chars ?n)"
    by (simp add: unguarded_calls_return_def example_defs is_high_surrogate_def
        is_low_surrogate_def)
  have 3: "heuristic_try_body failing_library_env True ?n grinning ?rt1 =
      Throw (JsError ''find failed'') ?rt2"
    by (simp add: engine_defs example_defs)
  note t = heuristic_errors_contained [where env = failing_library_env and hp = True
      and node = ?n and c = grinning and rt = ?rt1 and e = "JsError ''find failed''"
      and rt' = ?rt2 and n = ?n and hq = True and st = demo_runtime]
  from t 3 have 4: "heuristic_path failing_library_env True ?n grinning ?rt1 =
      Continue (?rt2\<lparr>console := console ?rt2 @ [Error_using_node_emoji (JsError ''find failed'')]\<rparr>)"
    by blast
  have 5: "scan_char failing_library_env True ?n grinning demo_runtime =
      heuristic_path failing_library_env True ?n grinning ?rt1"
    by (simp add: scan_char_def custom_mapping_path_def example_defs)
  from t 1 have 6: "fst (processTextNodes failing_library_env True ?n demo_runtime) = Completed"
    by blast
  have 7: "fst (snd (processTextNodes failing_library_env True ?n demo_runtime)) =
     [TextNode 100 grinning, IconNode 102 (Graphic ''luc_calendar''), TextNode 101 []]"
    by (simp add: engine_defs example_defs)
  note u = heuristic_errors_contained [where env = import_failing_env and hp = True
      and node = ?n and c = grinning and rs = demo_runtime and ra = demo_runtime
      and e = "JsError ''import failed''" and cs = "[calendar]"]
  have 8: "custom_mapping_path import_failing_env True ?n grinning demo_runtime = Continue demo_runtime"
    "\<not> isMobileDevice import_failing_env"
    "enableDefaultIconSearch (plugin_settings import_failing_env)"
    "isEmoji (iconSC import_failing_env) grinning = Inr True"
    "emojiModule demo_runtime = None"
    "import_node_emoji import_failing_env = Inl (JsError ''import failed'')"
    by (simp_all add: custom_mapping_path_def import_failing_env_def example_defs)
  from u 8 have 9: "scan_chars import_failing_env True ?n [grinning, calendar] demo_runtime =
     scan_chars import_failing_env True ?n [calendar]
       ((called CallImport (called (CallIsEmoji grinning) demo_runtime))
          \<lparr>console := console demo_runtime @ [Failed_to_import_node_emoji (JsError ''import failed'')]\<rparr>)"
    by blast
  have 10: "(called CallImport (called (CallIsEmoji grinning) demo_runtime))
          \<lparr>console := console demo_runtime @ [Failed_to_import_node_emoji (JsError ''import failed'')]\<rparr> =
       demo_runtime\<lparr>calls := [CallIsEmoji grinning, CallImport],
          console := [Failed_to_import_node_emoji (JsError ''import failed'')]\<rparr>"
    by (simp add: called_def demo_runtime_def)
  have 11: "processTextNodes import_failing_env True ?n demo_runtime =
     (Completed,
      [TextNode 100 grinning, IconNode 102 (Graphic ''luc_calendar''), TextNode 101 []],
      demo_runtime\<lparr>next_id := 103,
        calls := [CallIsEmoji grinning, CallImport, CallHasIcon (ascii ''luc_calendar''),
                  CallGetSVGIcon (ascii ''luc_calendar'')],
        console := [Failed_to_import_node_emoji (JsError ''import failed'')]\<rparr>)"
    by (simp add: engine_defs import_failing_env_def example_defs)
  from 1 3 4 5 6 7 8 9 10 11 show ?thesis by (simp add: demo_runtime_def)
qed

text \<open>
  C5, as the claim has it, fails: \<^verbatim>\<open>getSVGIcon\<close> throws for the calendar's custom icon; the
  traversal ends with that exception, the star after the calendar and the next leaf,
  which holds a mapped star, are not scanned.
\<close>

theorem custom_path_error_aborts_traversal:
  "customEmojiMappings (plugin_settings throwing_env) star = Some (ascii ''luc_star'') \<and>
   hasIcon (iconSC throwing_env) (ascii ''luc_star'') = Inr True \<and>
   getSVGIcon (iconSC throwing_env) (ascii ''luc_star'') = Inr (Some (Graphic ''luc_star'')) \<and>
   getSVGIcon (iconSC throwing_env) (ascii ''luc_calendar'') = Inl (JsError ''fetch failed'') \<and>
   processTextNodes throwing_env True
       (ElementNode 1 [TextNode 2 (calendar @ star), TextNode 3 star]) demo_runtime =
     (Threw (JsError ''fetch failed''),
      [ElementNode 1 [TextNode 2 (calendar @ star), TextNode 3 star]],
      demo_runtime\<lparr>calls := [CallHasIcon (ascii ''luc_calendar''), CallGetSVGIcon (ascii ''luc_calendar'')]\<rparr>)"
  by (simp add: engine_defs example_defs)

text \<open>
  C6, as the code has it. A click on "Add mapping" changes the settings or saves them
  only when the emoji field and the icon field are not empty, the icon service is there
  and takes the whole input for an emoji, and at most one character (code point) of the
  input is an emoji for it; the only key that changes is the input, which then maps to
  the icon typed in. An input that is empty, or not taken for an emoji, or holds two
  characters that are emoji, an empty icon field, or a click without the icon service,
  ends in one notice, the settings and the saved data as they were. An input that passes
  is stored under itself, the new settings are saved, no notice is shown, and both
  fields are cleared.
\<close>

theorem add_mapping_checked_input_only:
  "((\<exists>api. getApi = Some api \<and> emojiInput tab \<noteq> [] \<and> iconInput tab \<noteq> [] \<and>
       isEmoji api (emojiInput tab) = Inr True \<and> emoji_chars api (emojiInput tab) \<le> 1) \<or>
    (tab_settings (snd (addMapping_onClick getApi tab)) = tab_settings tab \<and>
     saved_data (snd (addMapping_onClick getApi tab)) = saved_data tab)) \<and>
   (customEmojiMappings (tab_settings (snd (addMapping_onClick getApi tab))) k \<noteq>
      customEmojiMappings (tab_settings tab) k \<longrightarrow>
      k = emojiInput tab \<and> k \<noteq> [] \<and>
      customEmojiMappings (tab_settings (snd (addMapping_onClick getApi tab))) k = Some (iconInput tab) \<and>
      (\<exists>api. getApi = Some api \<and> isEmoji api k = Inr True \<and> emoji_chars api k \<le> 1)) \<and>
   (emojiInput tab = [] \<or> iconInput tab = [] \<or> getApi = None \<or>
    (\<exists>api. getApi = Some api \<and>
       (isEmoji api (emojiInput tab) = Inr False \<or>
        (isEmoji api (emojiInput tab) = Inr True \<and>
         (\<forall>c \<in> set (code_points (emojiInput tab)). \<exists>b. isEmoji api c = Inr b) \<and>
         2 \<le> emoji_chars api (emojiInput tab)))) \<longrightarrow>
      (\<exists>msg. addMapping_onClick getApi tab = (Completed, show_notice msg tab) \<and>
         tab_settings (show_notice msg tab) = tab_settings tab \<and>
         saved_data (show_notice msg tab) = saved_data tab \<and>
         notices (show_notice msg tab) = notices tab @ [msg])) \<and>
   (getApi = Some api \<and> emojiInput tab \<noteq> [] \<and> iconInput tab \<noteq> [] \<and>
    isEmoji api (emojiInput tab) = Inr True \<and>
    (\<forall>c \<in> set (code_points (emojiInput tab)). \<exists>b. isEmoji api c = Inr b) \<and>
    emoji_chars api (emojiInput tab) \<le> 1 \<longrightarrow>
      addMapping_onClick getApi tab = (Completed, store_mapping tab) \<and>
      customEmojiMappings (tab_settings (store_mapping tab)) =
        (customEmojiMappings (tab_settings tab))(emojiInput tab \<mapsto> iconInput tab) \<and>
      enableDefaultIconSearch (tab_settings (store_mapping tab)) =
        enableDefaultIconSearch (tab_settings tab) \<and>
      saved_data (store_mapping tab) = saved_data tab @ [tab_settings (store_mapping tab)] \<and>
      notices (store_mapping tab) = notices tab \<and>
      emojiInput (store_mapping tab) = [] \<and> iconInput (store_mapping tab) = [])"
proof -
  have kept: "(\<exists>api. getApi = Some api \<and> emojiInput tab \<noteq> [] \<and> iconInput tab \<noteq> [] \<and>
       isEmoji api (emojiInput tab) = Inr True \<and> emoji_chars api (emojiInput tab) \<le> 1) \<or>
    (tab_settings (snd (addMapping_onClick getApi tab)) = tab_settings tab \<and>
     saved_data (snd (addMapping_onClick getApi tab)) = saved_data tab)"
    using addMapping_cases [of getApi tab] by (auto simp: show_notice_keeps)
  have changed: "customEmojiMappings (tab_settings (snd (addMapping_onClick getApi tab))) k \<noteq>
      customEmojiMappings (tab_settings tab) k \<longrightarrow>
      k = emojiInput tab \<and> k \<noteq> [] \<and>
      customEmojiMappings (tab_settings (snd (addMapping_onClick getApi tab))) k = Some (iconInput tab) \<and>
      (\<exists>api. getApi = Some api \<and> isEmoji api k = Inr True \<and> emoji_chars api k \<le> 1)"
  proof
    assume c: "customEmojiMappings (tab_settings (snd (addMapping_onClick getApi tab))) k \<noteq>
      customEmojiMappings (tab_settings tab) k"
    from addMapping_cases [of getApi tab]
    consider msg where "addMapping_onClick getApi tab = (Completed, show_notice msg tab)"
      | e where "addMapping_onClick getApi tab = (Threw e, tab)"
      | "addMapping_onClick getApi tab = (Completed, store_mapping tab)"
        "\<exists>api. getApi = Some api \<and> emojiInput tab \<noteq> [] \<and> iconInput tab \<noteq> [] \<and>
           isEmoji api (emojiInput tab) = Inr True \<and> emoji_chars api (emojiInput tab) \<le> 1"
      by blast
    then show "k = emojiInput tab \<and> k \<noteq> [] \<and>
      customEmojiMappings (tab_settings (snd (addMapping_onClick getApi tab))) k = Some (iconInput tab) \<and>
      (\<exists>api. getApi = Some api \<and> isEmoji api k = Inr True \<and> emoji_chars api k \<le> 1)"
    proof cases
      case 1
      with c show ?thesis by (simp add: show_notice_def)
    next
      case 2
      with c show ?thesis by simp
    next
      case 3
      from c 3(1) have k: "k = emojiInput tab"
        by (simp add: store_mapping_effect split: if_splits)
      from 3(1) k
      have "customEmojiMappings (tab_settings (snd (addMapping_onClick getApi tab))) k =
          Some (iconInput tab)"
        by (simp add: store_mapping_effect)
      with k 3(2) show ?thesis by auto
    qed
  qed
  have refused: "emojiInput tab = [] \<or> iconInput tab = [] \<or> getApi = None \<or>
    (\<exists>api. getApi = Some api \<and>
       (isEmoji api (emojiInput tab) = Inr False \<or>
        (isEmoji api (emojiInput tab) = Inr True \<and>
         (\<forall>c \<in> set (code_points (emojiInput tab)). \<exists>b. isEmoji api c = Inr b) \<and>
         2 \<le> emoji_chars api (emojiInput tab)))) \<longrightarrow>
      (\<exists>msg. addMapping_onClick getApi tab = (Completed, show_notice msg tab) \<and>
         tab_settings (show_notice msg tab) = tab_settings tab \<and>
         saved_data (show_notice msg tab) = saved_data tab \<and>
         notices (show_notice msg tab) = notices tab @ [msg])"
  proof
    assume r: "emojiInput tab = [] \<or> iconInput tab = [] \<or> getApi = None \<or>
      (\<exists>api. getApi = Some api \<and>
         (isEmoji api (emojiInput tab) = Inr False \<or>
          (isEmoji api (emojiInput tab) = Inr True \<and>
           (\<forall>c \<in> set (code_points (emojiInput tab)). \<exists>b. isEmoji api c = Inr b) \<and>
           2 \<le> emoji_chars api (emojiInput tab))))"
    have "\<exists>msg. addMapping_onClick getApi tab = (Completed, show_notice msg tab)"
    proof (cases "emojiInput tab = [] \<or> iconInput tab = []")
      case True
      then show ?thesis by (auto simp: addMapping_onClick_def)
    next
      case ne: False
      show ?thesis
      proof (cases getApi)
        case None
        with ne show ?thesis by (auto simp: addMapping_onClick_def)
      next
        case (Some a)
        with r ne consider "isEmoji a (emojiInput tab) = Inr False"
          | "isEmoji a (emojiInput tab) = Inr True"
            "\<forall>c \<in> set (code_points (emojiInput tab)). \<exists>b. isEmoji a c = Inr b"
            "2 \<le> emoji_chars a (emojiInput tab)"
          by auto
        then show ?thesis
        proof cases
          case 1
          with ne Some show ?thesis by (auto simp: addMapping_onClick_def)
        next
          case 2
          from one_emoji_loop_returns [OF 2(2), of False] 2(3)
          have "one_emoji_loop a (code_points (emojiInput tab)) False = Inr False"
            by (simp add: emoji_chars_def)
          with ne Some 2(1) show ?thesis by (auto simp: addMapping_onClick_def)
        qed
      qed
    qed
    then show "\<exists>msg. addMapping_onClick getApi tab = (Completed, show_notice msg tab) \<and>
         tab_settings (show_notice msg tab) = tab_settings tab \<and>
         saved_data (show_notice msg tab) = saved_data tab \<and>
         notices (show_notice msg tab) = notices tab @ [msg]"
      by (auto simp: show_notice_keeps)
  qed
  have stored: "getApi = Some api \<and> emojiInput tab \<noteq> [] \<and> iconInput tab \<noteq> [] \<and>
    isEmoji api (emojiInput tab) = Inr True \<and>
    (\<forall>c \<in> set (code_points (emojiInput tab)). \<exists>b. isEmoji api c = Inr b) \<and>
    emoji_chars api (emojiInput tab) \<le> 1 \<longrightarrow>
      addMapping_onClick getApi tab = (Completed, store_mapping tab) \<and>
      customEmojiMappings (tab_settings (store_mapping tab)) =
        (customEmojiMappings (tab_settings tab))(emojiInput tab \<mapsto> iconInput tab) \<and>
      enableDefaultIconSearch (tab_settings (store_mapping tab)) =
        enableDefaultIconSearch (tab_settings tab) \<and>
      saved_data (store_mapping tab) = saved_data tab @ [tab_settings (store_mapping tab)] \<and>
      notices (store_mapping tab) = notices tab \<and>
      emojiInput (store_mapping tab) = [] \<and> iconInput (store_mapping tab) = []"
  proof
    assume a: "getApi = Some api \<and> emojiInput tab \<noteq> [] \<and> iconInput tab \<noteq> [] \<and>
      isEmoji api (emojiInput tab) = Inr True \<and>
      (\<forall>c \<in> set (code_points (emojiInput tab)). \<exists>b. isEmoji api c = Inr b) \<and>
      emoji_chars api (emojiInput tab) \<le> 1"
    then have "\<forall>c \<in> set (code_points (emojiInput tab)). \<exists>b. isEmoji api c = Inr b" by blast
    from one_emoji_loop_returns [OF this, of False] a
    have "one_emoji_loop api (code_points (emojiInput tab)) False = Inr True"
      by (simp add: emoji_chars_def)
    with a have "addMapping_onClick getApi tab = (Completed, store_mapping tab)"
      by (simp add: addMapping_onClick_def)
    with store_mapping_effect [of tab]
    show "addMapping_onClick getApi tab = (Completed, store_mapping tab) \<and>
      customEmojiMappings (tab_settings (store_mapping tab)) =
        (customEmojiMappings (tab_settings tab))(emojiInput tab \<mapsto> iconInput tab) \<and>
      enableDefaultIconSearch (tab_settings (store_mapping tab)) =
        enableDefaultIconSearch (tab_settings tab) \<and>
      saved_data (store_mapping tab) = saved_data tab @ [tab_settings (store_mapping tab)] \<and>
      notices (store_mapping tab) = notices tab \<and>
      emojiInput (store_mapping tab) = [] \<and> iconInput (store_mapping tab) = []"
      by (rule conjI [rotated])
  qed
  show ?thesis
    by (intro conjI) (rule kept changed refused stored)+
qed

text \<open>
  The calendar is added; an input of calendar and star, which the lenient icon service
  takes for an emoji, is refused with the notice of the loop.
\<close>

theorem add_mapping_checked_input_only_witness:
  "isEmoji demo_api calendar = Inr True \<and> emoji_chars demo_api calendar = 1 \<and>
   addMapping_onClick (Some demo_api) demo_tab =
     (Completed,
      \<lparr>tab_settings = \<lparr>customEmojiMappings = [calendar \<mapsto> ascii ''luc_calendar''],
                        enableDefaultIconSearch = True\<rparr>,
       saved_data = [\<lparr>customEmojiMappings = [calendar \<mapsto> ascii ''luc_calendar''],
                       enableDefaultIconSearch = True\<rparr>],
       notices = [], emojiInput = [], iconInput = []\<rparr>) \<and>
   customEmojiMappings (tab_settings (snd (addMapping_onClick (Some demo_api) demo_tab))) calendar =
     Some (ascii ''luc_calendar'') \<and>
   customEmojiMappings (tab_settings demo_tab) calendar = None \<and>
   isEmoji lenient_api (calendar @ star) = Inr True \<and>
   emoji_chars lenient_api (calendar @ star) = 2 \<and>
   addMapping_onClick (Some lenient_api) two_emoji_tab =
     (Completed, two_emoji_tab\<lparr>notices := [''Please enter only one emoji'']\<rparr>)"
proof -
  have 1: "isEmoji demo_api calendar = Inr True"
    by (simp add: example_defs)
  have 2: "emoji_chars demo_api calendar = 1"
    by (simp add: emoji_chars_def example_defs is_high_surrogate_def is_low_surrogate_def)
  have 3: "\<forall>c \<in> set (code_points (emojiInput demo_tab)). \<exists>b. isEmoji demo_api c = Inr b"
    by (simp add: example_defs)
  have 4: "emojiInput demo_tab = calendar" "iconInput demo_tab = ascii ''luc_calendar''"
    by (simp_all add: demo_tab_def)
  have 5: "calendar \<noteq> []" "ascii ''luc_calendar'' \<noteq> []"
    by (simp_all add: example_defs)
  note t = add_mapping_checked_input_only [where getApi = "Some demo_api" and tab = demo_tab
      and api = demo_api and k = calendar]
  note stored = t [THEN conjunct2, THEN conjunct2, THEN conjunct2]
  from stored 1 2 3 4 5
  have "addMapping_onClick (Some demo_api) demo_tab = (Completed, store_mapping demo_tab)"
    by simp
  then have 6: "addMapping_onClick (Some demo_api) demo_tab =
     (Completed,
      \<lparr>tab_settings = \<lparr>customEmojiMappings = [calendar \<mapsto> ascii ''luc_calendar''],
                        enableDefaultIconSearch = True\<rparr>,
       saved_data = [\<lparr>customEmojiMappings = [calendar \<mapsto> ascii ''luc_calendar''],
                       enableDefaultIconSearch = True\<rparr>],
       notices = [], emojiInput = [], iconInput = []\<rparr>)"
    by (simp add: store_mapping_def demo_tab_def DEFAULT_SETTINGS_def Let_def)
  have 61: "customEmojiMappings (tab_settings demo_tab) calendar = None"
    by (simp add: demo_tab_def DEFAULT_SETTINGS_def)
  note changed = t [THEN conjunct2, THEN conjunct1]
  from 6 61 changed 4
  have 62: "customEmojiMappings (tab_settings (snd (addMapping_onClick (Some demo_api) demo_tab))) calendar =
     Some (ascii ''luc_calendar'')"
    by simp
  have 7: "isEmoji lenient_api (calendar @ star) = Inr True"
    by (simp add: lenient_api_def example_defs is_high_surrogate_def is_low_surrogate_def)
  have 8: "emoji_chars lenient_api (calendar @ star) = 2"
    by (simp add: emoji_chars_def lenient_api_def example_defs is_high_surrogate_def is_low_surrogate_def)
  have 9: "emojiInput two_emoji_tab = calendar @ star"
    by (simp add: two_emoji_tab_def)
  have 10: "\<forall>c \<in> set (code_points (emojiInput two_emoji_tab)). \<exists>b. isEmoji lenient_api c = Inr b"
    by (simp add: lenient_api_def)
  note refused = add_mapping_checked_input_only [where getApi = "Some lenient_api"
      and tab = two_emoji_tab and api = lenient_api and k = calendar,
      THEN conjunct2, THEN conjunct2, THEN conjunct1]
  from refused 7 8 9 10
  obtain msg where m: "addMapping_onClick (Some lenient_api) two_emoji_tab =
      (Completed, show_notice msg two_emoji_tab)"
    by auto
  have n: "notices (snd (addMapping_onClick (Some lenient_api) two_emoji_tab)) =
      [''Please enter only one emoji'']"
    by (simp add: addMapping_onClick_def show_notice_def two_emoji_tab_def demo_tab_def
        lenient_api_def example_defs is_high_surrogate_def is_low_surrogate_def)
  with m have "msg = ''Please enter only one emoji''"
    by (simp add: show_notice_def two_emoji_tab_def demo_tab_def)
  with m have "addMapping_onClick (Some lenient_api) two_emoji_tab =
     (Completed, two_emoji_tab\<lparr>notices := [''Please enter only one emoji'']\<rparr>)"
    by (simp add: show_notice_def two_emoji_tab_def demo_tab_def)
  with 1 2 6 61 62 7 8 show ?thesis by simp
qed

text \<open>
  C6, as the claim has it, fails: the key need not be one emoji. The lenient icon service
  takes the calendar followed by the letter a for an emoji; only one of its two
  characters is an emoji, so the loop lets it pass, and it is stored and saved as a key.
\<close>

theorem emoji_with_text_is_stored:
  "code_points (emojiInput emoji_and_letter_tab) = [calendar, ascii ''a''] \<and>
   isEmoji lenient_api (calendar @ ascii ''a'') = Inr True \<and>
   isEmoji lenient_api (ascii ''a'') = Inr False \<and>
   addMapping_onClick (Some lenient_api) emoji_and_letter_tab =
     (Completed,
      \<lparr>tab_settings = \<lparr>customEmojiMappings = [calendar @ ascii ''a'' \<mapsto> ascii ''luc_calendar''],
                        enableDefaultIconSearch = True\<rparr>,
       saved_data = [\<lparr>customEmojiMappings = [calendar @ ascii ''a'' \<mapsto> ascii ''luc_calendar''],
                       enableDefaultIconSearch = True\<rparr>],
       notices = [], emojiInput = [], iconInput = []\<rparr>)"
  by (simp add: addMapping_onClick_def store_mapping_def emoji_and_letter_tab_def demo_tab_def
      DEFAULT_SETTINGS_def lenient_api_def example_defs is_high_surrogate_def
      is_low_surrogate_def Let_def)

text \<open>
  C7. With \<^verbatim>\<open>enableDefaultIconSearch\<close> false, one run of the loop body is the custom
  mapping path and nothing else, for every character of every leaf; the custom mapping
  path is the same as with the flag set; and over a whole traversal no \<^verbatim>\<open>isEmoji\<close>, import
  or \<^verbatim>\<open>find\<close> call is made, the cached module and the console stay as they were.
\<close>

theorem flag_off_custom_only:
  assumes "\<not> enableDefaultIconSearch (plugin_settings env)"
  shows "scan_char env hp node c rt = custom_mapping_path env hp node c rt \<and>
         custom_mapping_path env hp node c rt =
           custom_mapping_path
             (env\<lparr>plugin_settings := (plugin_settings env)\<lparr>enableDefaultIconSearch := True\<rparr>\<rparr>)
             hp node c rt \<and>
         heuristic_untouched st (snd (snd (processTextNodes env hq n st)))"
  using assms
  by (simp add: scan_char_without_heuristic custom_mapping_path_flag traversal_quiet(1))

text \<open>
  The flag off, the leaf holding the grinning face and the calendar: the heuristic would
  resolve the grinning face, yet it is passed over, and the calendar is replaced through
  its mapping.
\<close>

theorem flag_off_custom_only_witness:
  "\<not> enableDefaultIconSearch (plugin_settings flag_off_env) \<and>
   heuristic_resolves calendar_env demo_runtime grinning \<and>
   scan_char flag_off_env True (TextNode 7 (grinning @ calendar)) grinning demo_runtime =
     Continue demo_runtime \<and>
   processTextNodes flag_off_env True (TextNode 7 (grinning @ calendar)) demo_runtime =
     (Completed,
      [TextNode 100 grinning, IconNode 102 (Graphic ''luc_calendar''), TextNode 101 []],
      demo_runtime\<lparr>next_id := 103,
        calls := [CallHasIcon (ascii ''luc_calendar''), CallGetSVGIcon (ascii ''luc_calendar'')]\<rparr>)"
proof -
  have h: "\<not> enableDefaultIconSearch (plugin_settings flag_off_env)"
    by (simp add: example_defs)
  have r: "heuristic_resolves calendar_env demo_runtime grinning"
    by (simp add: heuristic_resolves_def active_module_def engine_defs example_defs)
  have "custom_mapping_path flag_off_env True (TextNode 7 (grinning @ calendar)) grinning demo_runtime =
      Continue demo_runtime"
    by (simp add: engine_defs example_defs)
  with flag_off_custom_only [OF h, of True "TextNode 7 (grinning @ calendar)" grinning demo_runtime]
  have s: "scan_char flag_off_env True (TextNode 7 (grinning @ calendar)) grinning demo_runtime =
      Continue demo_runtime"
    by simp
  have "processTextNodes flag_off_env True (TextNode 7 (grinning @ calendar)) demo_runtime =
     (Completed,
      [TextNode 100 grinning, IconNode 102 (Graphic ''luc_calendar''), TextNode 101 []],
      demo_runtime\<lparr>next_id := 103,
        calls := [CallHasIcon (ascii ''luc_calendar''), CallGetSVGIcon (ascii ''luc_calendar'')]\<rparr>)"
    by (simp add: engine_defs example_defs)
  with h r s show ?thesis by simp
qed

text \<open>
  C8. On a mobile device one run of the loop body is the custom mapping path and nothing
  else; the custom mapping path is the same as on a desktop; a whole traversal gives what
  it gives on a desktop with the heuristic search off; no \<^verbatim>\<open>isEmoji\<close>, import or \<^verbatim>\<open>find\<close>
  call is made, and the number of imports attempted does not change.
\<close>

theorem mobile_custom_only:
  assumes "isMobileDevice env"
  shows "scan_char env hp node c rt = custom_mapping_path env hp node c rt \<and>
         custom_mapping_path env hp node c rt =
           custom_mapping_path (env\<lparr>isMobileDevice := False\<rparr>) hp node c rt \<and>
         processTextNodes env hq n st =
           processTextNodes
             (env\<lparr>isMobileDevice := False,
                  plugin_settings := (plugin_settings env)\<lparr>enableDefaultIconSearch := False\<rparr>\<rparr>)
             hq n st \<and>
         heuristic_untouched st (snd (snd (processTextNodes env hq n st))) \<and>
         count_list (calls (snd (snd (processTextNodes env hq n st)))) CallImport =
           count_list (calls st) CallImport"
proof -
  let ?env' = "env\<lparr>isMobileDevice := False,
                  plugin_settings := (plugin_settings env)\<lparr>enableDefaultIconSearch := False\<rparr>\<rparr>"
  have q: "heuristic_untouched st (snd (snd (processTextNodes env hq n st)))"
    using assms by (simp add: traversal_quiet(1))
  have "\<And>hp node c rt. scan_char env hp node c rt = scan_char ?env' hp node c rt"
    using assms
    by (simp add: scan_char_without_heuristic custom_mapping_path_api [of env ?env'])
  then have "processTextNodes env hq n st = processTextNodes ?env' hq n st"
    by (intro traversal_cong) simp
  moreover from q have "count_list (calls (snd (snd (processTextNodes env hq n st)))) CallImport =
           count_list (calls st) CallImport"
    by (intro count_import) (simp add: heuristic_untouched_def)
  ultimately show ?thesis
    using assms q
    by (simp add: scan_char_without_heuristic custom_mapping_path_mobile)
qed

text \<open>
  The mobile device of the examples, the leaf holding the grinning face and the calendar.
\<close>

theorem mobile_custom_only_witness:
  "isMobileDevice mobile_env \<and>
   heuristic_resolves calendar_env demo_runtime grinning \<and>
   scan_char mobile_env True (TextNode 7 (grinning @ calendar)) grinning demo_runtime =
     Continue demo_runtime \<and>
   processTextNodes mobile_env True (TextNode 7 (grinning @ calendar)) demo_runtime =
     (Completed,
      [TextNode 100 grinning, IconNode 102 (Graphic ''luc_calendar''), TextNode 101 []],
      demo_runtime\<lparr>next_id := 103,
        calls := [CallHasIcon (ascii ''luc_calendar''), CallGetSVGIcon (ascii ''luc_calendar'')]\<rparr>)"
proof -
  have h: "isMobileDevice mobile_env"
    by (simp add: example_defs)
  have r: "heuristic_resolves calendar_env demo_runtime grinning"
    by (simp add: heuristic_resolves_def active_module_def engine_defs example_defs)
  have "custom_mapping_path mobile_env True (TextNode 7 (grinning @ calendar)) grinning demo_runtime =
      Continue demo_runtime"
    by (simp add: engine_defs example_defs)
  with mobile_custom_only [OF h, of True "TextNode 7 (grinning @ calendar)" grinning demo_runtime]
  have s: "scan_char mobile_env True (TextNode 7 (grinning @ calendar)) grinning demo_runtime =
      Continue demo_runtime"
    by simp
  have "processTextNodes mobile_env True (TextNode 7 (grinning @ calendar)) demo_runtime =
     (Completed,
      [TextNode 100 grinning, IconNode 102 (Graphic ''luc_calendar''), TextNode 101 []],
      demo_runtime\<lparr>next_id := 103,
        calls := [CallHasIcon (ascii ''luc_calendar''), CallGetSVGIcon (ascii ''luc_calendar'')]\<rparr>)"
    by (simp add: engine_defs example_defs)
  with h r s show ?thesis by simp
qed

text \<open>
  C9. When no character of a text leaf has a custom mapping and the heuristic path
  resolves none of them, the traversal leaves the leaf at its place: the same node, with
  the same identity and the same text, is all that stands where it stood.
\<close>

theorem no_match_leaves_leaf:
  assumes "\<forall>c \<in> set (code_points t). customEmojiMappings (plugin_settings env) c = None \<and>
             \<not> heuristic_resolves env rt c"
  shows "fst (snd (processTextNodes env hp (TextNode i t) rt)) = [TextNode i t]"
proof (cases "scan_chars env hp (TextNode i t) (code_points t) rt")
  case (Continue rt1)
  then show ?thesis by simp
next
  case (Break ns rt1)
  with scan_chars_no_match [OF assms, of hp "TextNode i t" ns rt1] show ?thesis by simp
next
  case (Throw e rt1)
  then show ?thesis by simp
qed

text \<open>The leaf "Meeting today" in the first scenario.\<close>

theorem no_match_leaves_leaf_witness:
  "list_all (\<lambda>c. customEmojiMappings (plugin_settings calendar_env) c = None \<and>
                 \<not> heuristic_resolves calendar_env demo_runtime c)
      (code_points (ascii ''Meeting today'')) \<and>
   fst (snd (processTextNodes calendar_env True (TextNode 7 (ascii ''Meeting today'')) demo_runtime)) =
     [TextNode 7 (ascii ''Meeting today'')]"
proof -
  have h: "list_all (\<lambda>c. customEmojiMappings (plugin_settings calendar_env) c = None \<and>
                 \<not> heuristic_resolves calendar_env demo_runtime c)
      (code_points (ascii ''Meeting today''))"
    by (simp add: heuristic_resolves_def engine_defs example_defs)
  then have "\<forall>c \<in> set (code_points (ascii ''Meeting today'')).
      customEmojiMappings (plugin_settings calendar_env) c = None \<and>
      \<not> heuristic_resolves calendar_env demo_runtime c"
    by (simp only: list_all_iff)
  from no_match_leaves_leaf [OF this, of True 7] h show ?thesis by simp
qed

text \<open>
  C10. When \<^verbatim>\<open>getApi()\<close> returns nothing at load, no post processor is registered, so a
  render calls none and \<^verbatim>\<open>processTextNodes\<close> never runs; exactly one modal is opened, and
  it holds the installation instructions. Nothing but \<^verbatim>\<open>onload\<close> registers a post
  processor. With the icon service there, the post processor is registered and no modal
  is opened.
\<close>

theorem missing_dependency_disables_substitution:
  \<open>onload None fresh_host =
     \<lparr>opened_modals = [MissingDependencyModal], markdown_post_processors = [], setting_tabs = 1\<rparr> \<and>
   post_processor_calls (onload None fresh_host) element = [] \<and>
   markdown_post_processors (onload None h) = markdown_post_processors h \<and>
   opened_modals (onload None h) = opened_modals h @ [MissingDependencyModal] \<and>
   (''h3'', ''Installation Instructions:'') \<in> set MissingDependencyModal_onOpen \<and>
   (''p'', ''Please install and enable the "Icon Shortcodes" plugin to use Emoji Replacer.'')
      \<in> set MissingDependencyModal_onOpen \<and>
   onload (Some api) fresh_host =
     \<lparr>opened_modals = [], markdown_post_processors = [EmojiPostProcessor api], setting_tabs = 1\<rparr>\<close>
  by (simp add: onload_def onLayoutReady_callback_def fresh_host_def post_processor_calls_def
      MissingDependencyModal_onOpen_def)

end
